theory Spec2Isabelle
  imports Complex_Main
begin

section \<open>Character animation state machine (src/world.ts)\<close>

text \<open>
  The TypeScript source drives a three.js character: a finite state machine picks the
  animation (idle, walking, run, dance), every state's \<open>Enter\<close> hook blends the incoming
  action with the outgoing one, and \<open>BasicCharacterController.tick\<close> integrates velocity and
  heading once per frame.

  Conventions of the embedding:
  \<^item> JavaScript numbers are modelled as \<open>real\<close>. Rounding, \<open>NaN\<close> and the infinities are not
    part of the model, so a division is only meaningful where the divisor is not zero
    (in HOL \<open>x / 0 = 0\<close>, in JavaScript it is an infinity or \<open>NaN\<close>).
  \<^item> Mutation is explicit state passing on the record \<open>world\<close>, which holds the machine,
    the animation table behind the \<open>ControllerProxy\<close> and the listeners of the shared mixer.
  \<^item> A \<open>throw\<close> is a value: every operation returns \<open>error option \<times> world\<close>, where
    \<open>Some e\<close> carries the world as it was when the exception left the function.
  \<^item> The calls that the source makes are recorded in \<open>trace\<close>: one event for each hook
    invocation (\<open>Enter\<close>, \<open>Exit\<close>, \<open>_Finished\<close>) and one for each call into three.js.
  \<^item> three.js is not part of the repository. Its methods are modelled by their documented
    effect on the fields of an action that the source reads or writes or that the
    properties below speak about (\<open>time\<close>, \<open>enabled\<close>, \<open>timeScale\<close>, \<open>weight\<close>, \<open>clampWhenFinished\<close>,
    the loop mode): \<open>setEffectiveTimeScale\<close> and \<open>setEffectiveWeight\<close> store their
    argument, \<open>reset\<close> sets the time to 0 and enables the action, \<open>setLoop\<close> stores the
    loop mode. \<open>play\<close> and \<open>crossFadeFrom\<close> schedule work inside the mixer and change none
    of these fields at the time of the call, so they only leave their event in the trace.
    Of what the mixer does between two calls of the source, only the advance of an action's
    time is represented (the step \<open>Do_time\<close>); fading and warping are not modelled.
\<close>

subsection \<open>Data model\<close>

text \<open>\<^verbatim>\<open>type STATES = "idle" | "walking" | "run" | "dance" | "jump"\<close>\<close>

datatype STATES = idle | walking | run | dance | jump

text \<open>The four concrete subclasses of \<open>State\<close>.\<close>

datatype state_class = IdleState | RunState | WalkState | DanceState

text \<open>
  A state object. \<open>ident\<close> is the identity of the JavaScript object (a fresh number for every
  \<open>new\<close>). The field \<open>_parent\<close> is left out: the only constructor call of the program,
  \<open>new currentState(this)\<close> in \<open>SetState\<close>, passes the machine itself, so \<open>_parent\<close> is never
  null and the guards \<open>if (!this._parent) throw\<close> never fire.
\<close>

record State =
  cls :: state_class
  ident :: nat

text \<open>The getter \<open>Name\<close> of each class.\<close>

definition Name :: "State \<Rightarrow> STATES" where
  "Name s = (case cls s of
      IdleState \<Rightarrow> idle
    | RunState \<Rightarrow> run
    | WalkState \<Rightarrow> walking
    | DanceState \<Rightarrow> dance)"

text \<open>
  An entry of \<open>AnimationsRecord\<close>: the action together with the duration of its clip
  (\<open>getClip().duration\<close>).
\<close>

record action =
  time :: real
  enabled :: bool
  timeScale :: real
  weight :: real
  clampWhenFinished :: bool
  loopOnce :: bool
  duration :: real

text \<open>
  Functions registered on the mixer for the event \<open>"finished"\<close>: the closure
  \<open>_FinishedCallback\<close> of the \<open>DanceState\<close> object with the given identity, or the arrow
  function that \<open>_Cleanup\<close> creates anew on every call.
\<close>

datatype listener = FinishedCallback nat | CleanupArrow nat

text \<open>
  The exceptions that the modelled code can raise are all of one kind: reading a property of
  \<open>undefined\<close> or \<open>null\<close>, and \<open>new\<close> applied to \<open>undefined\<close>.
\<close>

datatype error = TypeError

text \<open>
  The events of the trace: the three hook invocations, then the calls into three.js and the
  console. Actions are named by their key in the animation table.
\<close>

datatype event =
    EnterCalled State "State option"
  | ExitCalled State
  | FinishedCalled nat
  | Call_play STATES
  | Call_crossFadeFrom STATES STATES real bool
  | Call_reset STATES
  | Call_setLoop STATES
  | Call_setEffectiveTimeScale STATES real
  | Call_setEffectiveWeight STATES real
  | Call_console_count
  | Call_console_warn
  | Call_mixer_update real

text \<open>
  The machine and what it reaches: the registry \<open>_states\<close>, \<open>currentState\<close>, the animation
  table \<open>_proxy._animations\<close>, the \<open>"finished"\<close> listeners of the mixer that all actions
  share, the trace, and the identity of the next object to be created.
\<close>

record world =
  states :: "STATES \<Rightarrow> state_class option"
  currentState :: "State option"
  animations :: "STATES \<Rightarrow> action option"
  listeners :: "listener list"
  trace :: "event list"
  next_id :: nat

type_synonym outcome = "error option \<times> world"

subsection \<open>Primitive effects\<close>

definition emit :: "event \<Rightarrow> world \<Rightarrow> world" where
  "emit e w = w\<lparr>trace := trace w @ [e]\<rparr>"

definition upd_action :: "STATES \<Rightarrow> (action \<Rightarrow> action) \<Rightarrow> world \<Rightarrow> world" where
  "upd_action n f w =
     (case animations w n of
        None \<Rightarrow> w
      | Some a \<Rightarrow> w\<lparr>animations := (animations w)(n \<mapsto> f a)\<rparr>)"

text \<open>Property writes of the source: \<open>action.time = t\<close>, \<open>action.enabled = b\<close>,
  \<open>action.clampWhenFinished = b\<close>.\<close>

definition set_time :: "STATES \<Rightarrow> real \<Rightarrow> world \<Rightarrow> world" where
  "set_time n t = upd_action n (\<lambda>a. a\<lparr>time := t\<rparr>)"

definition set_enabled :: "STATES \<Rightarrow> bool \<Rightarrow> world \<Rightarrow> world" where
  "set_enabled n b = upd_action n (\<lambda>a. a\<lparr>enabled := b\<rparr>)"

definition set_clampWhenFinished :: "STATES \<Rightarrow> bool \<Rightarrow> world \<Rightarrow> world" where
  "set_clampWhenFinished n b = upd_action n (\<lambda>a. a\<lparr>clampWhenFinished := b\<rparr>)"

text \<open>Methods of three.js' \<open>AnimationAction\<close>.\<close>

definition setEffectiveTimeScale :: "STATES \<Rightarrow> real \<Rightarrow> world \<Rightarrow> world" where
  "setEffectiveTimeScale n v w =
     emit (Call_setEffectiveTimeScale n v) (upd_action n (\<lambda>a. a\<lparr>timeScale := v\<rparr>) w)"

definition setEffectiveWeight :: "STATES \<Rightarrow> real \<Rightarrow> world \<Rightarrow> world" where
  "setEffectiveWeight n v w =
     emit (Call_setEffectiveWeight n v) (upd_action n (\<lambda>a. a\<lparr>weight := v\<rparr>) w)"

definition reset :: "STATES \<Rightarrow> world \<Rightarrow> world" where
  "reset n w = emit (Call_reset n) (upd_action n (\<lambda>a. a\<lparr>time := 0, enabled := True\<rparr>) w)"

definition setLoop :: "STATES \<Rightarrow> world \<Rightarrow> world" where
  "setLoop n w = emit (Call_setLoop n) (upd_action n (\<lambda>a. a\<lparr>loopOnce := True\<rparr>) w)"

definition crossFadeFrom :: "STATES \<Rightarrow> STATES \<Rightarrow> real \<Rightarrow> bool \<Rightarrow> world \<Rightarrow> world" where
  "crossFadeFrom cur prev d warp = emit (Call_crossFadeFrom cur prev d warp)"

definition play :: "STATES \<Rightarrow> world \<Rightarrow> world" where
  "play n = emit (Call_play n)"

text \<open>
  three.js' \<open>EventDispatcher\<close>: \<open>addEventListener\<close> pushes a function that is not yet
  registered, \<open>removeEventListener\<close> splices the first occurrence of the given function out.
\<close>

definition addEventListener :: "listener \<Rightarrow> world \<Rightarrow> world" where
  "addEventListener l w =
     (if l \<in> set (listeners w) then w else w\<lparr>listeners := listeners w @ [l]\<rparr>)"

definition removeEventListener :: "listener \<Rightarrow> world \<Rightarrow> world" where
  "removeEventListener l w = w\<lparr>listeners := remove1 l (listeners w)\<rparr>"

subsection \<open>The states\<close>

text \<open>
  \<open>IdleState.Enter\<close> (lines 204-222). Reading \<open>.action\<close> of a missing table entry is a
  \<open>TypeError\<close>.
\<close>

definition IdleState_Enter :: "State option \<Rightarrow> world \<Rightarrow> outcome" where
  "IdleState_Enter prevState w =
     (case animations w idle of
        None \<Rightarrow> (Some TypeError, w)
      | Some idleAction \<Rightarrow>
         (case prevState of
            None \<Rightarrow> (None, play idle w)
          | Some p \<Rightarrow>
             (case animations w (Name p) of
                None \<Rightarrow> (Some TypeError, w)
              | Some prevAction \<Rightarrow>
                 (let w1 = set_time idle 0 w;
                      w2 = set_enabled idle True w1;
                      w3 = setEffectiveTimeScale idle 1 w2;
                      w4 = setEffectiveWeight idle 1 w3;
                      w5 = crossFadeFrom idle (Name p) (1/2) True w4
                  in (None, play idle w5)))))"

text \<open>
  \<open>RunState.Enter\<close> (lines 246-275). Line 249 reads \<open>prevState.Name\<close> before the test of
  \<open>prevState\<close>, so entering without a previous state is a \<open>TypeError\<close>.
\<close>

definition RunState_Enter :: "State option \<Rightarrow> world \<Rightarrow> outcome" where
  "RunState_Enter prevState w =
     (case prevState of
        None \<Rightarrow> (Some TypeError, w)
      | Some p \<Rightarrow>
         (case animations w run of
            None \<Rightarrow> (Some TypeError, w)
          | Some curAction \<Rightarrow>
             (case animations w (Name p) of
                None \<Rightarrow> (Some TypeError, w)
              | Some prevAction \<Rightarrow>
                 (let w1 = set_enabled run True w;
                      w2 = (if Name p = walking
                            then (let ratio = duration curAction / duration prevAction
                                  in set_time run (time prevAction * ratio) w1)
                            else setEffectiveWeight run 1
                                   (setEffectiveTimeScale run 1 (set_time run 0 w1)));
                      w3 = crossFadeFrom run (Name p) (1/5) True w2;
                      w4 = emit Call_console_count w3
                  in (None, play run w4)))))"

text \<open>\<open>WalkState.Enter\<close> (lines 304-330).\<close>

definition WalkState_Enter :: "State option \<Rightarrow> world \<Rightarrow> outcome" where
  "WalkState_Enter prevState w =
     (case animations w walking of
        None \<Rightarrow> (Some TypeError, w)
      | Some curAction \<Rightarrow>
         (case prevState of
            None \<Rightarrow> (None, play walking w)
          | Some p \<Rightarrow>
             (case animations w (Name p) of
                None \<Rightarrow> (Some TypeError, w)
              | Some prevAction \<Rightarrow>
                 (let w1 = set_enabled walking True w;
                      w2 = (if Name p = run
                            then (let ratio = duration curAction / duration prevAction
                                  in set_time walking (time prevAction * ratio) w1)
                            else setEffectiveWeight walking 1
                                   (setEffectiveTimeScale walking 1 (set_time walking 0 w1)));
                      w3 = crossFadeFrom walking (Name p) (1/2) True w2
                  in (None, play walking w3)))))"

text \<open>
  \<open>DanceState.Enter\<close> (lines 367-387): the listener is registered before the previous
  action is looked up.
\<close>

definition DanceState_Enter :: "State \<Rightarrow> State option \<Rightarrow> world \<Rightarrow> outcome" where
  "DanceState_Enter self prevState w =
     (case animations w dance of
        None \<Rightarrow> (Some TypeError, w)
      | Some curAction \<Rightarrow>
         (let w1 = addEventListener (FinishedCallback (ident self)) w
          in (case prevState of
                None \<Rightarrow> (None, play dance w1)
              | Some p \<Rightarrow>
                 (case animations w1 (Name p) of
                    None \<Rightarrow> (Some TypeError, w1)
                  | Some prevAction \<Rightarrow>
                     (let w2 = reset dance w1;
                          w3 = setLoop dance w2;
                          w4 = set_clampWhenFinished dance True w3;
                          w5 = crossFadeFrom dance (Name p) (1/5) True w4
                      in (None, play dance w5))))))"

text \<open>
  \<open>DanceState._Cleanup\<close> (lines 394-403): the function handed to \<open>removeEventListener\<close> is
  an arrow function created by this very call.
\<close>

definition Cleanup :: "world \<Rightarrow> outcome" where
  "Cleanup w =
     (case animations w dance of
        None \<Rightarrow> (Some TypeError, w)
      | Some act \<Rightarrow>
         (let fresh = CleanupArrow (next_id w);
              w1 = w\<lparr>next_id := Suc (next_id w)\<rparr>
          in (None, removeEventListener fresh w1)))"

text \<open>The \<open>Exit\<close> hooks. \<open>RunState.Exit\<close> (lines 289-293) looks its own action up.\<close>

definition Exit_body :: "State \<Rightarrow> world \<Rightarrow> outcome" where
  "Exit_body s w =
     (case cls s of
        IdleState \<Rightarrow> (None, w)
      | WalkState \<Rightarrow> (None, w)
      | RunState \<Rightarrow>
         (case animations w run of None \<Rightarrow> (Some TypeError, w) | Some a \<Rightarrow> (None, w))
      | DanceState \<Rightarrow> Cleanup w)"

definition Enter_body :: "State \<Rightarrow> State option \<Rightarrow> world \<Rightarrow> outcome" where
  "Enter_body s prevState w =
     (case cls s of
        IdleState \<Rightarrow> IdleState_Enter prevState w
      | RunState \<Rightarrow> RunState_Enter prevState w
      | WalkState \<Rightarrow> WalkState_Enter prevState w
      | DanceState \<Rightarrow> DanceState_Enter s prevState w)"

text \<open>A method call on a state object: the call is recorded, then the body of its class runs.\<close>

definition Exit :: "State \<Rightarrow> world \<Rightarrow> outcome" where
  "Exit s w = Exit_body s (emit (ExitCalled s) w)"

definition Enter :: "State \<Rightarrow> State option \<Rightarrow> world \<Rightarrow> outcome" where
  "Enter s prevState w = Enter_body s prevState (emit (EnterCalled s prevState) w)"

subsection \<open>FiniteStateMachine\<close>

text \<open>
  \<open>SetState\<close> (lines 154-171). \<open>new currentState(this)\<close> with an unregistered name applies
  \<open>new\<close> to \<open>undefined\<close>, which is a \<open>TypeError\<close>; by then \<open>Exit\<close> of the previous state has
  run and \<open>this.currentState\<close> has not been assigned.
\<close>

definition SetState :: "STATES \<Rightarrow> world \<Rightarrow> outcome" where
  "SetState nameState w =
     (let prevState = currentState w in
      if (case prevState of None \<Rightarrow> False | Some p \<Rightarrow> Name p = nameState)
      then (None, w)
      else
        (case (case prevState of None \<Rightarrow> (None, w) | Some p \<Rightarrow> Exit p w) of
           (Some e, w1) \<Rightarrow> (Some e, w1)
         | (None, w1) \<Rightarrow>
            (case states w1 nameState of
               None \<Rightarrow> (Some TypeError, w1)
             | Some c \<Rightarrow>
                (let state = \<lparr>cls = c, ident = next_id w1\<rparr>;
                     w2 = w1\<lparr>next_id := Suc (next_id w1)\<rparr>;
                     w3 = w2\<lparr>currentState := Some state\<rparr>
                 in Enter state prevState w3))))"

text \<open>The registrations of the constructor of \<open>CharacterFSM\<close> (lines 186-192).\<close>

definition CharacterFSM_states :: "STATES \<Rightarrow> state_class option" where
  "CharacterFSM_states n =
     (case n of
        idle \<Rightarrow> Some IdleState
      | walking \<Rightarrow> Some WalkState
      | run \<Rightarrow> Some RunState
      | dance \<Rightarrow> Some DanceState
      | jump \<Rightarrow> None)"

text \<open>
  A freshly constructed machine over a given animation table and mixer: no active state,
  nothing traced.
\<close>

definition CharacterFSM :: "(STATES \<Rightarrow> action option) \<Rightarrow> listener list \<Rightarrow> world" where
  "CharacterFSM anims ls =
     \<lparr>states = CharacterFSM_states, currentState = None, animations = anims,
      listeners = ls, trace = [], next_id = 0\<rparr>"

text \<open>
  A sequence of \<open>SetState\<close> calls on one machine, as its callers make them (the \<open>onLoad\<close>
  callback, the \<open>Update\<close> hooks of every frame, the \<open>"finished"\<close> listener): each call
  starts from the world that the call before it left behind, whether that call returned or
  raised. The result lists what each call returned.
\<close>

fun SetStates :: "STATES list \<Rightarrow> world \<Rightarrow> error option list \<times> world" where
  "SetStates [] w = ([], w)"
| "SetStates (n # ns) w =
     (case SetState n w of
        (r, w1) \<Rightarrow> (case SetStates ns w1 of (rs, w2) \<Rightarrow> (r # rs, w2)))"

text \<open>The keys of \<open>ControllerInput\<close>.\<close>

record keys =
  forward :: bool
  backward :: bool
  left :: bool
  right :: bool
  space :: bool
  shift :: bool

text \<open>The \<open>Update\<close> hooks of the four states (lines 223-231, 277-288, 331-342, 407).\<close>

definition IdleState_Update :: "keys \<Rightarrow> world \<Rightarrow> outcome" where
  "IdleState_Update ks w =
     (if forward ks \<or> backward ks then SetState walking w
      else if space ks then SetState dance w
      else (None, w))"

definition RunState_Update :: "keys \<Rightarrow> world \<Rightarrow> outcome" where
  "RunState_Update ks w =
     (if forward ks \<or> backward ks
      then (if \<not> shift ks then SetState walking w else (None, w))
      else SetState idle w)"

definition WalkState_Update :: "keys \<Rightarrow> world \<Rightarrow> outcome" where
  "WalkState_Update ks w =
     (if forward ks \<or> backward ks
      then (if shift ks then SetState run w else (None, w))
      else SetState idle w)"

text \<open>\<open>FiniteStateMachine.Update\<close> (lines 173-177).\<close>

definition Update :: "real \<Rightarrow> keys \<Rightarrow> world \<Rightarrow> outcome" where
  "Update timeElapsed ks w =
     (case currentState w of
        None \<Rightarrow> (None, w)
      | Some s \<Rightarrow>
         (case cls s of
            IdleState \<Rightarrow> IdleState_Update ks w
          | RunState \<Rightarrow> RunState_Update ks w
          | WalkState \<Rightarrow> WalkState_Update ks w
          | DanceState \<Rightarrow> (None, w)))"

subsection \<open>The "finished" event of the mixer\<close>

text \<open>
  \<open>DanceState._Finished\<close> (lines 388-393), reached through the closure \<open>_FinishedCallback\<close>
  of the object with identity \<open>i\<close>.
\<close>

definition Finished :: "nat \<Rightarrow> world \<Rightarrow> outcome" where
  "Finished i w =
     (case Cleanup (emit (FinishedCalled i) w) of
        (Some e, w1) \<Rightarrow> (Some e, w1)
      | (None, w1) \<Rightarrow> SetState idle w1)"

definition call_listener :: "listener \<Rightarrow> world \<Rightarrow> outcome" where
  "call_listener l w =
     (case l of
        FinishedCallback i \<Rightarrow> Finished i w
      | CleanupArrow k \<Rightarrow> (None, emit Call_console_warn w))"

fun call_listeners :: "listener list \<Rightarrow> world \<Rightarrow> outcome" where
  "call_listeners [] w = (None, w)"
| "call_listeners (l # ls) w =
     (case call_listener l w of
        (Some e, w1) \<Rightarrow> (Some e, w1)
      | (None, w1) \<Rightarrow> call_listeners ls w1)"

text \<open>
  three.js' \<open>dispatchEvent\<close>, as the mixer runs it when the one-shot dance clip reaches its
  end: every function registered at the time of the dispatch is called, in the order of
  registration.
\<close>

definition dispatch_finished :: "world \<Rightarrow> outcome" where
  "dispatch_finished w = call_listeners (listeners w) w"

text \<open>
  \<open>n\<close> rounds of the dance: the machine enters Dance (the action key in Idle), the clip
  runs to its end and the mixer dispatches \<open>"finished"\<close>.
\<close>

fun dance_cycles :: "nat \<Rightarrow> world \<Rightarrow> outcome" where
  "dance_cycles 0 w = (None, w)"
| "dance_cycles (Suc k) w =
     (case SetState dance w of
        (Some e, w1) \<Rightarrow> (Some e, w1)
      | (None, w1) \<Rightarrow>
         (case dispatch_finished w1 of
            (Some e, w2) \<Rightarrow> (Some e, w2)
          | (None, w2) \<Rightarrow> dance_cycles k w2))"




subsection \<open>BasicCharacterController\<close>

record Vector3 =
  vec_x :: real
  vec_y :: real
  vec_z :: real

record Quaternion =
  quat_x :: real
  quat_y :: real
  quat_z :: real
  quat_w :: real

text \<open>The methods of three.js' \<open>Vector3\<close> and \<open>Quaternion\<close> that \<open>tick\<close> calls.\<close>

definition multiplyScalar :: "Vector3 \<Rightarrow> real \<Rightarrow> Vector3" where
  "multiplyScalar v s = \<lparr>vec_x = vec_x v * s, vec_y = vec_y v * s, vec_z = vec_z v * s\<rparr>"

definition add :: "Vector3 \<Rightarrow> Vector3 \<Rightarrow> Vector3" where
  "add v u = \<lparr>vec_x = vec_x v + vec_x u, vec_y = vec_y v + vec_y u, vec_z = vec_z v + vec_z u\<rparr>"

definition normalize :: "Vector3 \<Rightarrow> Vector3" where
  "normalize v =
     (let len = sqrt (vec_x v * vec_x v + vec_y v * vec_y v + vec_z v * vec_z v)
      in if len = 0 then v
         else \<lparr>vec_x = vec_x v / len, vec_y = vec_y v / len, vec_z = vec_z v / len\<rparr>)"

definition setFromAxisAngle :: "Vector3 \<Rightarrow> real \<Rightarrow> Quaternion" where
  "setFromAxisAngle axis angle =
     (let halfAngle = angle / 2; s = sin halfAngle
      in \<lparr>quat_x = vec_x axis * s, quat_y = vec_y axis * s, quat_z = vec_z axis * s,
          quat_w = cos halfAngle\<rparr>)"

definition multiply :: "Quaternion \<Rightarrow> Quaternion \<Rightarrow> Quaternion" where
  "multiply a b =
     \<lparr>quat_x = quat_x a * quat_w b + quat_w a * quat_x b + quat_y a * quat_z b - quat_z a * quat_y b,
      quat_y = quat_y a * quat_w b + quat_w a * quat_y b + quat_z a * quat_x b - quat_x a * quat_z b,
      quat_z = quat_z a * quat_w b + quat_w a * quat_z b + quat_x a * quat_y b - quat_y a * quat_x b,
      quat_w = quat_w a * quat_w b - quat_x a * quat_x b - quat_y a * quat_y b - quat_z a * quat_z b\<rparr>"

definition applyQuaternion :: "Vector3 \<Rightarrow> Quaternion \<Rightarrow> Vector3" where
  "applyQuaternion v q =
     (let tx = 2 * (quat_y q * vec_z v - quat_z q * vec_y v);
          ty = 2 * (quat_z q * vec_x v - quat_x q * vec_z v);
          tz = 2 * (quat_x q * vec_y v - quat_y q * vec_x v)
      in \<lparr>vec_x = vec_x v + quat_w q * tx + quat_y q * tz - quat_z q * ty,
          vec_y = vec_y v + quat_w q * ty + quat_z q * tx - quat_x q * tz,
          vec_z = vec_z v + quat_w q * tz + quat_x q * ty - quat_y q * tx\<rparr>)"

text \<open>The rendered object \<open>_target\<close>: only its orientation and position are used.\<close>

record Group =
  quaternion :: Quaternion
  position :: Vector3

record controller =
  decceleration :: Vector3
  acceleration :: Vector3
  velocity :: Vector3
  input :: keys
  stateMachine :: world
  target :: "Group option"

text \<open>
  The constructor (lines 426-439). The model is loaded later, so \<open>_target\<close> starts out
  undefined and the animation table empty.
\<close>

definition BasicCharacterController :: controller where
  "BasicCharacterController =
     \<lparr>decceleration = \<lparr>vec_x = - (5 / 10000), vec_y = - (1 / 10000), vec_z = - 5\<rparr>,
      acceleration = \<lparr>vec_x = 1, vec_y = 1 / 4, vec_z = 25\<rparr>,
      velocity = \<lparr>vec_x = 0, vec_y = 0, vec_z = 0\<rparr>,
      input = \<lparr>forward = False, backward = False, left = False, right = False,
               space = False, shift = False\<rparr>,
      stateMachine = CharacterFSM (\<lambda>n. None) [],
      target = None\<rparr>"

text \<open>
  The local \<open>frameDecceleration\<close> of \<open>tick\<close> (lines 499-507), from the velocity, the
  deceleration constants and the elapsed time.
\<close>

definition frameDecceleration :: "Vector3 \<Rightarrow> Vector3 \<Rightarrow> real \<Rightarrow> Vector3" where
  "frameDecceleration v d timeInSeconds =
     (let fd = multiplyScalar
                 \<lparr>vec_x = vec_x v * vec_x d, vec_y = vec_y v * vec_y d, vec_z = vec_z v * vec_z d\<rparr>
                 timeInSeconds
      in fd\<lparr>vec_z := sgn (vec_z fd) * min \<bar>vec_z fd\<bar> \<bar>vec_z v\<bar>\<rparr>)"

text \<open>The local \<open>acc\<close> of \<open>tick\<close> (lines 516-526): a clone of the base acceleration, scaled.\<close>

definition acc :: "Vector3 \<Rightarrow> keys \<Rightarrow> world \<Rightarrow> Vector3" where
  "acc a ks m =
     (let a1 = (if shift ks then multiplyScalar a 2 else a)
      in if (case currentState m of None \<Rightarrow> False | Some s \<Rightarrow> Name s = dance)
         then multiplyScalar a1 0 else a1)"

text \<open>
  \<open>tick\<close> (lines 491-575). The velocity object is updated in place. The last statement
  hands the elapsed time to the mixer; what the mixer does with it (advancing the actions,
  and dispatching \<open>"finished"\<close> when the dance clip ends, see \<open>dispatch_finished\<close>) is
  the work of three.js, and \<open>tick\<close> records the call.
\<close>

definition tick :: "real \<Rightarrow> controller \<Rightarrow> error option \<times> controller" where
  "tick timeInSeconds c =
     (case target c of
        None \<Rightarrow> (None, c)
      | Some controlObject \<Rightarrow>
         (case Update timeInSeconds (input c) (stateMachine c) of
            (Some e, m) \<Rightarrow> (Some e, c\<lparr>stateMachine := m\<rparr>)
          | (None, m) \<Rightarrow>
             (let v0 = velocity c;
                  v1 = add v0 (frameDecceleration v0 (decceleration c) timeInSeconds);
                  R0 = quaternion controlObject;
                  a = acc (acceleration c) (input c) m;
                  v2 = (if forward (input c)
                        then v1\<lparr>vec_z := vec_z v1 + vec_z a * timeInSeconds\<rparr> else v1);
                  v3 = (if backward (input c)
                        then v2\<lparr>vec_z := vec_z v2 - vec_z a * timeInSeconds\<rparr> else v2);
                  R1 = (if left (input c)
                        then multiply R0
                               (setFromAxisAngle \<lparr>vec_x = 0, vec_y = 1, vec_z = 0\<rparr>
                                  (4 * pi * timeInSeconds * vec_y (acceleration c)))
                        else R0);
                  R2 = (if right (input c)
                        then multiply R1
                               (setFromAxisAngle \<lparr>vec_x = 0, vec_y = 1, vec_z = 0\<rparr>
                                  (4 * (- pi) * timeInSeconds * vec_y (acceleration c)))
                        else R1);
                  fwd = multiplyScalar
                          (normalize (applyQuaternion \<lparr>vec_x = 0, vec_y = 0, vec_z = 1\<rparr> R2))
                          (vec_z v3 * timeInSeconds);
                  sideways = multiplyScalar
                          (normalize (applyQuaternion \<lparr>vec_x = 1, vec_y = 0, vec_z = 0\<rparr> R2))
                          (vec_x v3 * timeInSeconds);
                  pos = add (add (position controlObject) fwd) sideways
              in (None, c\<lparr>velocity := v3,
                           target := Some \<lparr>quaternion = R2, position = pos\<rparr>,
                           stateMachine := emit (Call_mixer_update timeInSeconds) m\<rparr>))))"

subsection \<open>Loading\<close>

text \<open>
  \<open>_OnLoad\<close> (lines 460-471) stores a clip and a fresh action for it in the animation
  table. \<open>clipAction\<close> is three.js' constructor of an action: time 0, enabled, time scale
  and weight 1, looping; \<open>d\<close> is the duration of the clip.
\<close>

definition clipAction :: "real \<Rightarrow> action" where
  "clipAction d =
     \<lparr>time = 0, enabled = True, timeScale = 1, weight = 1, clampWhenFinished = False,
      loopOnce = False, duration = d\<rparr>"

definition OnLoad :: "STATES \<Rightarrow> real \<Rightarrow> world \<Rightarrow> world" where
  "OnLoad animName d w = w\<lparr>animations := (animations w)(animName \<mapsto> clipAction d)\<rparr>"

text \<open>
  The machine of a controller after the four loads of \<open>_LoadModels\<close> (lines 476-487), for
  clips of the given durations (walking, run, idle, dance). The \<open>onLoad\<close> callback of the
  loading manager then calls \<open>SetState("idle")\<close>.
\<close>

definition loaded :: "real \<Rightarrow> real \<Rightarrow> real \<Rightarrow> real \<Rightarrow> world" where
  "loaded dw dr di dd =
     OnLoad dance dd (OnLoad idle di (OnLoad run dr (OnLoad walking dw
       (CharacterFSM (\<lambda>n. None) []))))"

subsection \<open>Observing the hook calls\<close>

text \<open>
  The protocol of the hooks, read off the trace: either no state was ever entered, or a
  state is active (entered, not yet exited), or the active state has been exited and its
  successor is still to be entered. \<open>hook_step\<close> accepts \<open>Enter\<close> with no previous state only
  at the very start, \<open>Exit\<close> only of the active state and only once, and a further \<open>Enter\<close>
  only of another object and only with the exited object as its argument. Calls into
  three.js do not move the protocol.
\<close>

datatype phase = NoState | Active State | Exited State

fun hook_step :: "phase \<Rightarrow> event \<Rightarrow> phase option" where
  "hook_step ph (EnterCalled s prev) =
     (case ph of
        NoState \<Rightarrow> (if prev = None then Some (Active s) else None)
      | Active a \<Rightarrow> None
      | Exited x \<Rightarrow> (if prev = Some x \<and> s \<noteq> x then Some (Active s) else None))"
| "hook_step ph (ExitCalled s) =
     (case ph of
        NoState \<Rightarrow> None
      | Active a \<Rightarrow> (if s = a then Some (Exited a) else None)
      | Exited x \<Rightarrow> None)"
| "hook_step ph e = Some ph"

fun replay :: "phase \<Rightarrow> event list \<Rightarrow> phase option" where
  "replay ph [] = Some ph"
| "replay ph (e # es) =
     (case hook_step ph e of None \<Rightarrow> None | Some ph' \<Rightarrow> replay ph' es)"

text \<open>The state object that the protocol holds.\<close>

fun holder :: "phase \<Rightarrow> State option" where
  "holder NoState = None"
| "holder (Active s) = Some s"
| "holder (Exited s) = Some s"

fun is_Exited :: "phase \<Rightarrow> bool" where
  "is_Exited (Exited s) = True"
| "is_Exited ph = False"

text \<open>The state objects whose \<open>Enter\<close> was called, in the order of the calls.\<close>

fun entered :: "event list \<Rightarrow> State list" where
  "entered [] = []"
| "entered (EnterCalled s prev # es) = s # entered es"
| "entered (e # es) = entered es"

text \<open>The cross-fades of a trace: incoming action, outgoing action, duration.\<close>

fun crossFades :: "event list \<Rightarrow> (STATES \<times> STATES \<times> real) list" where
  "crossFades [] = []"
| "crossFades (Call_crossFadeFrom cur prev d warp # es) = (cur, prev, d) # crossFades es"
| "crossFades (e # es) = crossFades es"

text \<open>The objects whose \<open>_Finished\<close> ran, in the order of the calls.\<close>

fun finishedCalls :: "event list \<Rightarrow> nat list" where
  "finishedCalls [] = []"
| "finishedCalls (FinishedCalled i # es) = i # finishedCalls es"
| "finishedCalls (e # es) = finishedCalls es"

subsection \<open>Auxiliary notions for the proofs\<close>

text \<open>The first half of \<open>SetState\<close>: the previous state, if there is one, is exited.\<close>

definition after_exit :: "world \<Rightarrow> outcome" where
  "after_exit w = (case currentState w of None \<Rightarrow> (None, w) | Some p \<Rightarrow> Exit p w)"

text \<open>
  Between two calls of \<open>SetState\<close> the trace has been accepted by the protocol, the machine
  holds the state that the protocol holds as active, and every object entered so far is
  older than the next identity.
\<close>

definition hooks_inv :: "world \<Rightarrow> bool" where
  "hooks_inv w \<longleftrightarrow>
     replay NoState (trace w)
       = Some (case currentState w of None \<Rightarrow> NoState | Some s \<Rightarrow> Active s) \<and>
     distinct (entered (trace w)) \<and>
     (\<forall>s \<in> set (entered (trace w)). ident s < next_id w) \<and>
     (case currentState w of None \<Rightarrow> True | Some s \<Rightarrow> s \<in> set (entered (trace w)))"

text \<open>
  A machine on which the dance can run: idle and dance are registered and loaded, and the
  mixer holds only \<open>_FinishedCallback\<close> closures of objects that exist.
\<close>

definition callback_below :: "nat \<Rightarrow> listener \<Rightarrow> bool" where
  "callback_below n l = (case l of FinishedCallback i \<Rightarrow> i < n | CleanupArrow k \<Rightarrow> False)"

definition dance_ready :: "world \<Rightarrow> bool" where
  "dance_ready w \<longleftrightarrow>
     states w idle = Some IdleState \<and> states w dance = Some DanceState \<and>
     animations w idle \<noteq> None \<and> animations w dance \<noteq> None \<and>
     list_all (callback_below (next_id w)) (listeners w)"


section \<open>Basic facts\<close>

lemmas setter_defs = set_time_def set_enabled_def set_clampWhenFinished_def
  setEffectiveTimeScale_def setEffectiveWeight_def reset_def setLoop_def crossFadeFrom_def
  play_def

lemmas effect_defs = emit_def upd_action_def setter_defs addEventListener_def
  removeEventListener_def

lemmas hook_defs = Exit_def Enter_def Exit_body_def Enter_body_def IdleState_Enter_def
  RunState_Enter_def WalkState_Enter_def DanceState_Enter_def Cleanup_def

lemmas load_defs = clipAction_def OnLoad_def loaded_def CharacterFSM_def CharacterFSM_states_def

lemmas eval_defs = SetState_def hook_defs effect_defs load_defs Name_def Let_def

lemma case_option_id: "(case x of None \<Rightarrow> None | Some q \<Rightarrow> Some q) = x"
  by (cases x) simp_all

lemma crossFades_append: "crossFades (xs @ ys) = crossFades xs @ crossFades ys"
  by (induction xs rule: crossFades.induct) simp_all

lemma entered_append: "entered (xs @ ys) = entered xs @ entered ys"
  by (induction xs rule: entered.induct) simp_all

lemma replay_append:
  "replay ph (xs @ ys) = (case replay ph xs of None \<Rightarrow> None | Some q \<Rightarrow> replay q ys)"
  by (induction xs arbitrary: ph) (simp_all split: option.splits)

lemma replay_snoc:
  "replay ph (xs @ [e]) = (case replay ph xs of None \<Rightarrow> None | Some q \<Rightarrow> hook_step q e)"
  by (simp add: replay_append split: option.splits)

subsection \<open>What the effects leave alone\<close>

lemma upd_action_frame:
  "trace (upd_action n f w) = trace w"
  "currentState (upd_action n f w) = currentState w"
  "next_id (upd_action n f w) = next_id w"
  "states (upd_action n f w) = states w"
  "listeners (upd_action n f w) = listeners w"
  by (simp_all add: upd_action_def split: option.splits)

lemma emit_frame:
  "trace (emit e w) = trace w @ [e]"
  "currentState (emit e w) = currentState w"
  "next_id (emit e w) = next_id w"
  "states (emit e w) = states w"
  "listeners (emit e w) = listeners w"
  "animations (emit e w) = animations w"
  by (simp_all add: emit_def)

lemma addEventListener_frame:
  "trace (addEventListener l w) = trace w"
  "currentState (addEventListener l w) = currentState w"
  "next_id (addEventListener l w) = next_id w"
  "states (addEventListener l w) = states w"
  "animations (addEventListener l w) = animations w"
  by (simp_all add: addEventListener_def)

lemmas frame_simps = upd_action_frame emit_frame addEventListener_frame

lemma Cleanup_frame:
  "states (snd (Cleanup w)) = states w"
  "currentState (snd (Cleanup w)) = currentState w"
  "animations (snd (Cleanup w)) = animations w"
  "trace (snd (Cleanup w)) = trace w"
  "next_id w \<le> next_id (snd (Cleanup w))"
  by (simp_all add: Cleanup_def removeEventListener_def Let_def split: option.splits)

lemma Exit_body_frame:
  "trace (snd (Exit_body s w)) = trace w"
  "currentState (snd (Exit_body s w)) = currentState w"
  "next_id w \<le> next_id (snd (Exit_body s w))"
  by (simp_all add: Exit_body_def Cleanup_frame split: state_class.splits option.splits)

lemma Exit_frame:
  "states (snd (Exit p w)) = states w"
  "currentState (snd (Exit p w)) = currentState w"
  "animations (snd (Exit p w)) = animations w"
  "trace (snd (Exit p w)) = trace w @ [ExitCalled p]"
  by (simp_all add: Exit_def Exit_body_def emit_def Cleanup_frame
        split: state_class.splits option.splits)

lemma Exit_next_id: "next_id w \<le> next_id (snd (Exit p w))"
  using Exit_body_frame(3)[of "emit (ExitCalled p) w" p] by (simp add: Exit_def emit_frame)

lemma IdleState_Enter_frame:
  "replay ph (trace (snd (IdleState_Enter prev w))) = replay ph (trace w)"
  "entered (trace (snd (IdleState_Enter prev w))) = entered (trace w)"
  "currentState (snd (IdleState_Enter prev w)) = currentState w"
  "next_id (snd (IdleState_Enter prev w)) = next_id w"
  by (simp_all add: IdleState_Enter_def setter_defs frame_simps Let_def replay_append
        entered_append case_option_id split: option.splits)

lemma RunState_Enter_frame:
  "replay ph (trace (snd (RunState_Enter prev w))) = replay ph (trace w)"
  "entered (trace (snd (RunState_Enter prev w))) = entered (trace w)"
  "currentState (snd (RunState_Enter prev w)) = currentState w"
  "next_id (snd (RunState_Enter prev w)) = next_id w"
  by (simp_all add: RunState_Enter_def setter_defs frame_simps Let_def replay_append
        entered_append case_option_id split: option.splits)

lemma WalkState_Enter_frame:
  "replay ph (trace (snd (WalkState_Enter prev w))) = replay ph (trace w)"
  "entered (trace (snd (WalkState_Enter prev w))) = entered (trace w)"
  "currentState (snd (WalkState_Enter prev w)) = currentState w"
  "next_id (snd (WalkState_Enter prev w)) = next_id w"
  by (simp_all add: WalkState_Enter_def setter_defs frame_simps Let_def replay_append
        entered_append case_option_id split: option.splits)

lemma DanceState_Enter_frame:
  "replay ph (trace (snd (DanceState_Enter s prev w))) = replay ph (trace w)"
  "entered (trace (snd (DanceState_Enter s prev w))) = entered (trace w)"
  "currentState (snd (DanceState_Enter s prev w)) = currentState w"
  "next_id (snd (DanceState_Enter s prev w)) = next_id w"
  by (simp_all add: DanceState_Enter_def setter_defs frame_simps Let_def replay_append
        entered_append case_option_id split: option.splits)

lemma Enter_body_frame:
  "replay ph (trace (snd (Enter_body s prev w))) = replay ph (trace w)"
  "entered (trace (snd (Enter_body s prev w))) = entered (trace w)"
  "currentState (snd (Enter_body s prev w)) = currentState w"
  "next_id (snd (Enter_body s prev w)) = next_id w"
  by (simp_all add: Enter_body_def IdleState_Enter_frame RunState_Enter_frame
        WalkState_Enter_frame DanceState_Enter_frame split: state_class.splits)

lemma Enter_frame:
  "replay ph (trace (snd (Enter s prev w))) =
     (case replay ph (trace w) of None \<Rightarrow> None | Some q \<Rightarrow> hook_step q (EnterCalled s prev))"
  "entered (trace (snd (Enter s prev w))) = entered (trace w) @ [s]"
  "currentState (snd (Enter s prev w)) = currentState w"
  "next_id (snd (Enter s prev w)) = next_id w"
  by (simp_all add: Enter_def Enter_body_frame emit_frame replay_snoc entered_append)

subsection \<open>The structure of \<open>SetState\<close>\<close>

lemma after_exit_frame:
  "currentState (snd (after_exit w)) = currentState w"
  "next_id w \<le> next_id (snd (after_exit w))"
  "entered (trace (snd (after_exit w))) = entered (trace w)"
  "states (snd (after_exit w)) = states w"
  by (simp_all add: after_exit_def Exit_frame Exit_next_id entered_append split: option.splits)

lemma after_exit_replay:
  assumes "hooks_inv w"
  shows "replay NoState (trace (snd (after_exit w))) =
           Some (case currentState w of None \<Rightarrow> NoState | Some p \<Rightarrow> Exited p)"
  using assms
  by (simp add: hooks_inv_def after_exit_def Exit_frame replay_snoc split: option.splits)

lemma SetState_unfold:
  "SetState n w =
     (if map_option Name (currentState w) = Some n then (None, w)
      else case after_exit w of
             (Some e, w1) \<Rightarrow> (Some e, w1)
           | (None, w1) \<Rightarrow>
               (case states w1 n of
                  None \<Rightarrow> (Some TypeError, w1)
                | Some c \<Rightarrow>
                    Enter \<lparr>cls = c, ident = next_id w1\<rparr> (currentState w)
                      (w1\<lparr>next_id := Suc (next_id w1),
                          currentState := Some \<lparr>cls = c, ident = next_id w1\<rparr>\<rparr>)))"
  by (cases "currentState w")
     (simp_all add: SetState_def after_exit_def Let_def split: option.splits prod.splits)

text \<open>A call that replaces the active state and returns has exited it and entered a new object.\<close>

lemma SetState_replace:
  assumes "currentState w = Some p" "Name p \<noteq> n" "SetState n w = (None, w')"
  obtains w1 c where "Exit p w = (None, w1)" "states w n = Some c"
    "Enter \<lparr>cls = c, ident = next_id w1\<rparr> (Some p)
       (w1\<lparr>next_id := Suc (next_id w1),
           currentState := Some \<lparr>cls = c, ident = next_id w1\<rparr>\<rparr>) = (None, w')"
proof -
  obtain r w1 where ex: "Exit p w = (r, w1)" by (cases "Exit p w")
  have st: "states w1 = states w" using Exit_frame(1)[of p w] ex by simp
  from assms ex have r: "r = None" by (cases r) (simp_all add: SetState_def)
  from assms ex r st obtain c where c: "states w n = Some c"
    by (cases "states w n") (simp_all add: SetState_def)
  from assms ex r st c have "Enter \<lparr>cls = c, ident = next_id w1\<rparr> (Some p)
       (w1\<lparr>next_id := Suc (next_id w1),
           currentState := Some \<lparr>cls = c, ident = next_id w1\<rparr>\<rparr>) = (None, w')"
    by (simp add: SetState_def Let_def)
  with ex r c that show ?thesis by blast
qed

lemma CharacterFSM_states_Name:
  "CharacterFSM_states n = Some c \<Longrightarrow> Name \<lparr>cls = c, ident = i\<rparr> = n"
  by (cases n) (auto simp add: CharacterFSM_states_def Name_def)

subsection \<open>One call of \<open>SetState\<close> and the hook protocol\<close>

lemma SetState_hooks:
  assumes inv: "hooks_inv w"
  shows "\<exists>ph. replay NoState (trace (snd (SetState n w))) = Some ph \<and>
               holder ph = currentState (snd (SetState n w)) \<and>
               distinct (entered (trace (snd (SetState n w)))) \<and>
               (is_Exited ph \<longrightarrow> fst (SetState n w) \<noteq> None) \<and>
               (\<not> is_Exited ph \<longrightarrow> hooks_inv (snd (SetState n w)))"
proof (cases "map_option Name (currentState w) = Some n")
  case True
  then have "SetState n w = (None, w)" by (simp add: SetState_unfold)
  with inv show ?thesis by (auto simp add: hooks_inv_def split: option.splits)
next
  case False
  obtain r w1 where ae: "after_exit w = (r, w1)" by (cases "after_exit w")
  have w1: "currentState w1 = currentState w" "next_id w \<le> next_id w1"
    "entered (trace w1) = entered (trace w)"
    "replay NoState (trace w1)
       = Some (case currentState w of None \<Rightarrow> NoState | Some p \<Rightarrow> Exited p)"
    using after_exit_frame(1-3)[of w] after_exit_replay[OF inv] ae by simp_all
  have old: "distinct (entered (trace w))" "\<forall>s \<in> set (entered (trace w)). ident s < next_id w"
    "case currentState w of None \<Rightarrow> True | Some s \<Rightarrow> s \<in> set (entered (trace w))"
    using inv by (simp_all add: hooks_inv_def)
  have stuck: ?thesis if st: "SetState n w = (Some e, w1)" for e
  proof (cases "currentState w")
    case None
    then have "w1 = w" using ae by (simp add: after_exit_def)
    then show ?thesis using st inv None by (auto simp add: hooks_inv_def)
  next
    case (Some p)
    then show ?thesis using st w1 old(1) by simp
  qed
  show ?thesis
  proof (cases r)
    case (Some e)
    then have "SetState n w = (Some e, w1)" using False ae by (simp add: SetState_unfold)
    then show ?thesis by (rule stuck)
  next
    case None
    show ?thesis
    proof (cases "states w1 n")
      case nr: None
      then have "SetState n w = (Some TypeError, w1)"
        using False ae None by (simp add: SetState_unfold)
      then show ?thesis by (rule stuck)
    next
      case (Some c)
      let ?st = "\<lparr>cls = c, ident = next_id w1\<rparr>"
      let ?w3 = "w1\<lparr>next_id := Suc (next_id w1), currentState := Some ?st\<rparr>"
      have eq: "SetState n w = Enter ?st (currentState w) ?w3"
        using False ae None Some by (auto simp add: SetState_unfold)
      have fresh: "?st \<notin> set (entered (trace w))" using old(2) w1(2) by auto
      have rp: "replay NoState (trace (snd (SetState n w))) = Some (Active ?st)"
      proof (cases "currentState w")
        case None
        then show ?thesis using w1(4) by (simp add: eq Enter_frame)
      next
        case (Some p)
        then have "p \<in> set (entered (trace w))" using old(3) by simp
        then have "?st \<noteq> p" using fresh by auto
        then show ?thesis using w1(4) Some by (simp add: eq Enter_frame)
      qed
      have cs: "currentState (snd (SetState n w)) = Some ?st" by (simp add: eq Enter_frame)
      have en: "entered (trace (snd (SetState n w))) = entered (trace w) @ [?st]"
        by (simp add: eq Enter_frame w1(3))
      have ni: "next_id (snd (SetState n w)) = Suc (next_id w1)" by (simp add: eq Enter_frame)
      have d: "distinct (entered (trace (snd (SetState n w))))" using en old(1) fresh by simp
      have b: "\<forall>s \<in> set (entered (trace (snd (SetState n w)))).
                 ident s < next_id (snd (SetState n w))"
        using en ni old(2) w1(2) by auto
      have hi: "hooks_inv (snd (SetState n w))" using rp cs d b en by (simp add: hooks_inv_def)
      show ?thesis using rp cs d hi by simp
    qed
  qed
qed

lemma SetStates_Cons:
  "fst (SetStates (n # ns) w) = fst (SetState n w) # fst (SetStates ns (snd (SetState n w)))"
  "snd (SetStates (n # ns) w) = snd (SetStates ns (snd (SetState n w)))"
  by (simp_all add: case_prod_unfold)

lemma length_SetStates: "length (fst (SetStates ns w)) = length ns"
  by (induction ns arbitrary: w) (simp_all add: case_prod_unfold)

text \<open>As long as no call before the last one raises, the protocol is kept.\<close>

lemma SetStates_hooks:
  assumes "hooks_inv w" "list_all (\<lambda>r. r = None) (butlast (fst (SetStates ns w)))"
  shows "\<exists>ph. replay NoState (trace (snd (SetStates ns w))) = Some ph \<and>
               holder ph = currentState (snd (SetStates ns w)) \<and>
               distinct (entered (trace (snd (SetStates ns w)))) \<and>
               (is_Exited ph \<longrightarrow> ns \<noteq> [] \<and> last (fst (SetStates ns w)) \<noteq> None)"
  using assms
proof (induction ns arbitrary: w)
  case Nil
  then show ?case by (auto simp add: hooks_inv_def split: option.splits)
next
  case (Cons n ns)
  from SetState_hooks[OF Cons.prems(1), of n] obtain ph where
    ph: "replay NoState (trace (snd (SetState n w))) = Some ph"
      "holder ph = currentState (snd (SetState n w))"
      "distinct (entered (trace (snd (SetState n w))))"
      "is_Exited ph \<longrightarrow> fst (SetState n w) \<noteq> None"
      "\<not> is_Exited ph \<longrightarrow> hooks_inv (snd (SetState n w))"
    by blast
  show ?case
  proof (cases ns)
    case Nil
    then show ?thesis using ph by (simp add: case_prod_unfold)
  next
    case (Cons m ms)
    then have ne: "fst (SetStates ns (snd (SetState n w))) \<noteq> []"
      using length_SetStates[of ns "snd (SetState n w)"] by auto
    from Cons.prems(2) ne have r: "fst (SetState n w) = None"
      and rest: "list_all (\<lambda>r. r = None) (butlast (fst (SetStates ns (snd (SetState n w)))))"
      by (simp_all del: SetStates.simps add: SetStates_Cons)
    from r ph(4,5) have "hooks_inv (snd (SetState n w))" by blast
    from Cons.IH[OF this rest] show ?thesis
      using ne Cons by (auto simp del: SetStates.simps simp add: SetStates_Cons)
  qed
qed

subsection \<open>The blend of one \<open>Enter\<close>\<close>

lemma Enter_crossFades:
  assumes "Enter s (Some p) w = (None, w')"
  shows "crossFades (trace w') = crossFades (trace w) @
           [(Name s, Name p, if Name s = idle \<or> Name s = walking then 1/2 else 1/5)]"
  using assms
  by (cases "cls s")
     (auto simp add: hook_defs effect_defs Let_def Name_def crossFades_append
           split: option.splits if_splits)


subsection \<open>The arithmetic of \<open>tick\<close>\<close>

lemmas tick_defs = tick_def Update_def IdleState_Update_def RunState_Update_def
  WalkState_Update_def acc_def frameDecceleration_def multiplyScalar_def add_def
  BasicCharacterController_def

lemma clamp_real:
  fixes v p :: real
  assumes "0 \<le> v \<Longrightarrow> p \<le> 0" "v \<le> 0 \<Longrightarrow> 0 \<le> p"
  shows "abs (sgn p * min (abs p) (abs v)) = min (abs p) (abs v)"
    and "sgn p * min (abs p) (abs v) = (if abs p \<le> abs v then p else sgn p * abs v)"
    and "0 \<le> v \<Longrightarrow> 0 \<le> v + sgn p * min (abs p) (abs v) \<and> v + sgn p * min (abs p) (abs v) \<le> v"
    and "v \<le> 0 \<Longrightarrow> v \<le> v + sgn p * min (abs p) (abs v) \<and> v + sgn p * min (abs p) (abs v) \<le> 0"
  using assms by (auto simp add: sgn_real_def min_def abs_if split: if_splits)

lemma product_sign:
  fixes v dt :: real
  assumes "0 \<le> dt"
  shows "0 \<le> v \<Longrightarrow> v * (- 5) * dt \<le> 0" "v \<le> 0 \<Longrightarrow> 0 \<le> v * (- 5) * dt"
proof -
  show "0 \<le> v \<Longrightarrow> v * (- 5) * dt \<le> 0"
    using assms mult_nonneg_nonneg[of v dt] by (simp add: mult.commute)
  show "v \<le> 0 \<Longrightarrow> 0 \<le> v * (- 5) * dt"
    using assms mult_nonpos_nonneg[of v dt] by (simp add: mult.commute)
qed

lemma Name_dance_cls: "Name s = dance \<Longrightarrow> cls s = DanceState"
  by (cases "cls s") (simp_all add: Name_def)

lemma Update_dance:
  "currentState m = Some s \<Longrightarrow> Name s = dance \<Longrightarrow> Update dt ks m = (None, m)"
  by (simp add: Update_def Name_dance_cls)

lemma acc_dance:
  "currentState m = Some s \<Longrightarrow> Name s = dance \<Longrightarrow>
     acc a ks m = \<lparr>vec_x = 0, vec_y = 0, vec_z = 0\<rparr>"
  by (simp add: acc_def multiplyScalar_def)

lemma tick_velocity_dance:
  assumes "currentState (stateMachine c) = Some s" "Name s = dance"
  shows "fst (tick dt (c\<lparr>input := ks\<rparr>)) = None"
    and "velocity (snd (tick dt (c\<lparr>input := ks\<rparr>))) =
           (case target c of
              None \<Rightarrow> velocity c
            | Some g \<Rightarrow> add (velocity c) (frameDecceleration (velocity c) (decceleration c) dt))"
  using assms
  by (simp_all add: tick_def Update_dance acc_dance Let_def split: option.splits)

lemma tick_ok:
  assumes "target c = Some controlObject" "Update dt (input c) (stateMachine c) = (None, m)"
  shows "velocity (snd (tick dt c)) =
           (let v1 = add (velocity c) (frameDecceleration (velocity c) (decceleration c) dt);
                a = acc (acceleration c) (input c) m;
                v2 = (if forward (input c) then v1\<lparr>vec_z := vec_z v1 + vec_z a * dt\<rparr> else v1)
            in if backward (input c) then v2\<lparr>vec_z := vec_z v2 - vec_z a * dt\<rparr> else v2)"
    and "map_option quaternion (target (snd (tick dt c))) =
           Some (let R1 = (if left (input c)
                           then multiply (quaternion controlObject)
                                  (setFromAxisAngle \<lparr>vec_x = 0, vec_y = 1, vec_z = 0\<rparr>
                                     (4 * pi * dt * vec_y (acceleration c)))
                           else quaternion controlObject)
                 in if right (input c)
                    then multiply R1
                           (setFromAxisAngle \<lparr>vec_x = 0, vec_y = 1, vec_z = 0\<rparr>
                              (4 * (- pi) * dt * vec_y (acceleration c)))
                    else R1)"
  using assms by (simp_all add: tick_def Let_def)

lemma acc_z:
  "vec_z (acc a ks m) =
     vec_z a * (if shift ks then 2 else 1) *
       (if map_option Name (currentState m) = Some dance then 0 else 1)"
  by (cases "currentState m") (simp_all add: acc_def multiplyScalar_def)

subsection \<open>The listeners of the mixer over a round of the dance\<close>

lemmas cycle_defs = dispatch_finished_def call_listener_def Finished_def

lemma remove1_absent: "x \<notin> set xs \<Longrightarrow> remove1 x xs = xs"
  by (induction xs) auto

lemma callback_below_mono: "callback_below n l \<Longrightarrow> n \<le> m \<Longrightarrow> callback_below m l"
  by (cases l) (simp_all add: callback_below_def)

lemma callbacks_only:
  "list_all (callback_below n) ls \<Longrightarrow> l \<in> set ls \<Longrightarrow> \<exists>i < n. l = FinishedCallback i"
  by (cases l) (auto simp add: list_all_iff callback_below_def)

lemma Cleanup_ready:
  assumes "dance_ready w"
  shows "Cleanup w = (None, w\<lparr>next_id := Suc (next_id w)\<rparr>)"
proof -
  have "CleanupArrow (next_id w) \<notin> set (listeners w)"
    using assms by (auto simp add: dance_ready_def dest: callbacks_only)
  then have "remove1 (CleanupArrow (next_id w)) (listeners w) = listeners w"
    by (rule remove1_absent)
  then show ?thesis using assms
    by (auto simp add: Cleanup_def dance_ready_def removeEventListener_def Let_def)
qed

lemma dance_ready_mono:
  assumes "dance_ready w" "states w' = states w" "animations w' idle \<noteq> None"
    "animations w' dance \<noteq> None" "set (listeners w') \<subseteq> set (listeners w)"
    "next_id w \<le> next_id w'"
  shows "dance_ready w'"
proof -
  have "callback_below (next_id w') l" if "l \<in> set (listeners w')" for l
  proof -
    from that assms(5) have "l \<in> set (listeners w)" by blast
    then have "callback_below (next_id w) l"
      using assms(1) by (simp add: dance_ready_def list_all_iff)
    then show ?thesis using assms(6) by (rule callback_below_mono)
  qed
  then show ?thesis using assms(1-4) by (simp add: dance_ready_def list_all_iff)
qed

lemma finish_from_dance:
  assumes r: "dance_ready w" and cs: "currentState w = Some s" and nm: "Name s = dance"
  shows "\<exists>w' s'. SetState idle w = (None, w') \<and> dance_ready w' \<and>
           listeners w' = listeners w \<and> currentState w' = Some s' \<and> Name s' = idle"
proof -
  from nm have c: "cls s = DanceState" by (rule Name_dance_cls)
  from r obtain ai ad where a: "animations w idle = Some ai" "animations w dance = Some ad"
    by (auto simp add: dance_ready_def)
  have st: "states w idle = Some IdleState" "states w dance = Some DanceState"
    using r by (simp_all add: dance_ready_def)
  let ?w0 = "emit (ExitCalled s) w"
  have r0: "dance_ready ?w0" using r by (simp add: dance_ready_def emit_def)
  have ex: "Exit s w = (None, ?w0\<lparr>next_id := Suc (next_id w)\<rparr>)"
    using Cleanup_ready[OF r0] c by (simp add: Exit_def Exit_body_def emit_def)
  obtain w' where w': "w' = snd (SetState idle w)" by simp
  have ok: "SetState idle w = (None, w')"
    using cs nm c a st ex unfolding w'
    by (simp add: SetState_def Enter_def Enter_body_def IdleState_Enter_def
          CharacterFSM_states_def effect_defs Name_def Let_def)
  have fr: "listeners w' = listeners w" "states w' = states w" "animations w' idle \<noteq> None"
    "animations w' dance \<noteq> None" "next_id w \<le> next_id w'"
    "currentState w' = Some \<lparr>cls = IdleState, ident = Suc (next_id w)\<rparr>"
    using cs nm c a st ex unfolding w'
    by (simp_all add: SetState_def Enter_def Enter_body_def IdleState_Enter_def
          CharacterFSM_states_def effect_defs Name_def Let_def)
  have "dance_ready w'" using dance_ready_mono[OF r fr(2,3,4) _ fr(5)] fr(1) by simp
  then show ?thesis using ok fr(1,6) by (simp add: Name_def)
qed

lemma enter_dance_from_idle:
  assumes r: "dance_ready w" and cs: "currentState w = Some s" and nm: "Name s = idle"
  shows "\<exists>w' s'. SetState dance w = (None, w') \<and> dance_ready w' \<and>
           listeners w' = listeners w @ [FinishedCallback (next_id w)] \<and>
           currentState w' = Some s' \<and> Name s' = dance"
proof -
  from nm have c: "cls s = IdleState" by (cases "cls s") (simp_all add: Name_def)
  from r obtain ai ad where a: "animations w idle = Some ai" "animations w dance = Some ad"
    by (auto simp add: dance_ready_def)
  have st: "states w idle = Some IdleState" "states w dance = Some DanceState"
    using r by (simp_all add: dance_ready_def)
  have fresh: "FinishedCallback (next_id w) \<notin> set (listeners w)"
    using r by (auto simp add: dance_ready_def dest: callbacks_only)
  obtain w' where w': "w' = snd (SetState dance w)" by simp
  have ok: "SetState dance w = (None, w')"
    using cs nm c a st fresh unfolding w'
    by (simp add: SetState_def hook_defs CharacterFSM_states_def effect_defs Name_def Let_def)
  have fr: "listeners w' = listeners w @ [FinishedCallback (next_id w)]"
    "states w' = states w" "animations w' idle \<noteq> None"
    "animations w' dance \<noteq> None" "next_id w' = Suc (next_id w)"
    "currentState w' = Some \<lparr>cls = DanceState, ident = next_id w\<rparr>"
    using cs nm c a st fresh unfolding w'
    by (simp_all add: SetState_def hook_defs CharacterFSM_states_def effect_defs Name_def Let_def)
  have "callback_below (Suc (next_id w)) l" if "l \<in> set (listeners w)" for l
  proof -
    from that have "callback_below (next_id w) l"
      using r by (simp add: dance_ready_def list_all_iff)
    then show ?thesis by (rule callback_below_mono) simp
  qed
  then have "dance_ready w'" using r fr(1-5)
    by (simp add: dance_ready_def list_all_iff callback_below_def)
  then show ?thesis using ok fr(1,6) by (simp add: Name_def)
qed

lemma Finished_ready:
  assumes r: "dance_ready w" and cs: "currentState w = Some s"
    and nm: "Name s = idle \<or> Name s = dance"
  shows "\<exists>w' s'. Finished i w = (None, w') \<and> dance_ready w' \<and>
           listeners w' = listeners w \<and> currentState w' = Some s' \<and> Name s' = idle"
proof -
  let ?w0 = "emit (FinishedCalled i) w"
  let ?w1 = "?w0\<lparr>next_id := Suc (next_id w)\<rparr>"
  have r0: "dance_ready ?w0" using r by (simp add: dance_ready_def emit_def)
  have cl: "Cleanup ?w0 = (None, ?w1)" using Cleanup_ready[OF r0] by (simp add: emit_def)
  have r1: "dance_ready ?w1"
    using r by (auto simp add: dance_ready_def emit_def list_all_iff intro: callback_below_mono)
  have cs1: "currentState ?w1 = Some s" using cs by (simp add: emit_def)
  have l1: "listeners ?w1 = listeners w" by (simp add: emit_def)
  have fin: "Finished i w = SetState idle ?w1" using cl by (simp add: Finished_def)
  from nm show ?thesis
  proof
    assume "Name s = idle"
    then have "SetState idle ?w1 = (None, ?w1)" using cs1 by (simp add: SetState_def)
    then show ?thesis using fin r1 cs1 l1 \<open>Name s = idle\<close> by auto
  next
    assume "Name s = dance"
    from finish_from_dance[OF r1 cs1 this] show ?thesis using fin l1 by auto
  qed
qed

lemma call_listeners_ready:
  assumes "dance_ready w" "currentState w = Some s" "Name s = idle \<or> Name s = dance"
    "\<forall>l \<in> set ls. \<exists>i. l = FinishedCallback i"
  shows "\<exists>w' s'. call_listeners ls w = (None, w') \<and> dance_ready w' \<and>
           listeners w' = listeners w \<and> currentState w' = Some s' \<and>
           (Name s' = idle \<or> Name s' = dance) \<and> (ls \<noteq> [] \<longrightarrow> Name s' = idle)"
  using assms
proof (induction ls arbitrary: w s)
  case Nil
  then show ?case by simp
next
  case (Cons l ls)
  from Cons.prems(4) obtain i where l: "l = FinishedCallback i" by auto
  from Finished_ready[OF Cons.prems(1-3), of i] obtain w1 s1 where
    1: "Finished i w = (None, w1)" "dance_ready w1" "listeners w1 = listeners w"
       "currentState w1 = Some s1" "Name s1 = idle"
    by blast
  have rest: "\<forall>l \<in> set ls. \<exists>i. l = FinishedCallback i" using Cons.prems(4) by simp
  from Cons.IH[OF 1(2) 1(4) _ rest] 1(5) obtain w' s' where
    2: "call_listeners ls w1 = (None, w')" "dance_ready w'" "listeners w' = listeners w1"
       "currentState w' = Some s'" "Name s' = idle \<or> Name s' = dance"
       "ls \<noteq> [] \<longrightarrow> Name s' = idle"
    by blast
  have idle': "Name s' = idle"
  proof (cases ls)
    case Nil
    then show ?thesis using 2(1,4) 1(4,5) by simp
  next
    case (Cons a as)
    then show ?thesis using 2(6) by simp
  qed
  have "call_listeners (l # ls) w = (None, w')" using l 1(1) 2(1) by (simp add: call_listener_def)
  then show ?case using 2(2,3,4) 1(3) idle' by simp
qed

lemma dance_cycle_ready:
  assumes r: "dance_ready w" and cs: "currentState w = Some s" and nm: "Name s = idle"
  shows "\<exists>w' s'. dance_cycles 1 w = (None, w') \<and> dance_ready w' \<and>
           listeners w' = listeners w @ [FinishedCallback (next_id w)] \<and>
           currentState w' = Some s' \<and> Name s' = idle"
proof -
  from enter_dance_from_idle[OF r cs nm] obtain w1 s1 where
    1: "SetState dance w = (None, w1)" "dance_ready w1"
       "listeners w1 = listeners w @ [FinishedCallback (next_id w)]"
       "currentState w1 = Some s1" "Name s1 = dance"
    by blast
  have cb: "\<forall>l \<in> set (listeners w1). \<exists>i. l = FinishedCallback i"
    using 1(2) by (auto simp add: dance_ready_def dest: callbacks_only)
  have ne: "listeners w1 \<noteq> []" using 1(3) by simp
  from call_listeners_ready[OF 1(2) 1(4) _ cb] 1(5) ne obtain w' s' where
    2: "call_listeners (listeners w1) w1 = (None, w')" "dance_ready w'"
       "listeners w' = listeners w1" "currentState w' = Some s'" "Name s' = idle"
    by blast
  have "dance_cycles 1 w = (None, w')" using 1(1) 2(1) by (simp add: dispatch_finished_def)
  then show ?thesis using 2(2,3,4,5) 1(3) by simp
qed

lemma dance_cycles_Suc:
  "dance_cycles (Suc k) w =
     (case dance_cycles 1 w of (Some e, w1) \<Rightarrow> (Some e, w1) | (None, w1) \<Rightarrow> dance_cycles k w1)"
  by (simp split: prod.splits option.splits)

subsection \<open>Nothing in the program changes the weight or the time scale of the dance action\<close>




















section \<open>The claims\<close>

text \<open>
  C1, as the code has it. For every sequence of \<open>SetState\<close> calls in which no call before
  the last one raises, on a machine that starts without an active state, the hook calls
  follow the protocol of \<open>hook_step\<close> at every point of the trace: at most one state is
  active at any time; a state is replaced only after its \<open>Exit\<close> was called, exactly once,
  and before the \<open>Enter\<close> of its successor, which is another object and receives the exited
  object as its previous state. The machine holds the state that the protocol holds, no
  object is entered twice, and a state is left exited without a successor only when the
  last call raised.
\<close>

theorem SetStates_hook_protocol:
  assumes "currentState w = None" "trace w = []"
    "list_all (\<lambda>r. r = None) (butlast (fst (SetStates ns w)))"
  shows "\<exists>ph. replay NoState (trace (snd (SetStates ns w))) = Some ph \<and>
               holder ph = currentState (snd (SetStates ns w)) \<and>
               distinct (entered (trace (snd (SetStates ns w)))) \<and>
               (is_Exited ph \<longrightarrow> ns \<noteq> [] \<and> last (fst (SetStates ns w)) \<noteq> None)"
proof -
  have "hooks_inv w" using assms(1,2) by (simp add: hooks_inv_def)
  then show ?thesis using assms(3) by (rule SetStates_hooks)
qed

text \<open>
  An instance: five transitions of the loaded machine, all of which return, and the same
  sequence ended by the unregistered name, which leaves the dance state exited.
\<close>

theorem SetStates_hook_protocol_witness:
  "currentState (loaded 2 1 4 8) = None \<and> trace (loaded 2 1 4 8) = [] \<and>
   fst (SetStates [idle, walking, run, idle, dance] (loaded 2 1 4 8))
     = [None, None, None, None, None] \<and>
   replay NoState (trace (snd (SetStates [idle, walking, run, idle, dance] (loaded 2 1 4 8))))
     = Some (Active \<lparr>cls = DanceState, ident = 4\<rparr>) \<and>
   currentState (snd (SetStates [idle, walking, run, idle, dance] (loaded 2 1 4 8)))
     = Some \<lparr>cls = DanceState, ident = 4\<rparr> \<and>
   fst (SetStates [idle, dance, jump] (loaded 2 1 4 8)) = [None, None, Some TypeError] \<and>
   replay NoState (trace (snd (SetStates [idle, dance, jump] (loaded 2 1 4 8))))
     = Some (Exited \<lparr>cls = DanceState, ident = 1\<rparr>)"
proof -
  have 1: "currentState (loaded 2 1 4 8) = None" "trace (loaded 2 1 4 8) = []"
    by (simp_all add: load_defs)
  have 2: "fst (SetStates [idle, walking, run, idle, dance] (loaded 2 1 4 8))
             = [None, None, None, None, None]"
    by (simp add: eval_defs)
  have 3: "fst (SetStates [idle, dance, jump] (loaded 2 1 4 8)) = [None, None, Some TypeError]"
    by (simp add: eval_defs)
  have 4: "list_all (\<lambda>r. r = None)
             (butlast (fst (SetStates [idle, walking, run, idle, dance] (loaded 2 1 4 8))))"
    unfolding 2 by simp
  have 5: "replay NoState
             (trace (snd (SetStates [idle, walking, run, idle, dance] (loaded 2 1 4 8))))
           = Some (Active \<lparr>cls = DanceState, ident = 4\<rparr>)"
    by (simp add: eval_defs)
  have 6: "replay NoState (trace (snd (SetStates [idle, dance, jump] (loaded 2 1 4 8))))
           = Some (Exited \<lparr>cls = DanceState, ident = 1\<rparr>)"
    by (simp add: eval_defs)
  from SetStates_hook_protocol[OF 1 4] 1 2 3 5 6 show ?thesis by auto
qed

text \<open>
  C1 as stated fails for a sequence that goes on after a raising call. \<open>SetState("jump")\<close>
  on the Idle machine calls \<open>Exit\<close> of the Idle object (line 162) and raises at line 167,
  before \<open>currentState\<close> is assigned; the next call, \<open>SetState("walking")\<close>, calls \<open>Exit\<close> of
  the same object a second time before \<open>Enter\<close> of the walking state.
\<close>

theorem exit_twice_after_unregistered_name:
  "fst (SetStates [idle, jump, walking] (loaded 2 1 4 8)) = [None, Some TypeError, None] \<and>
   trace (snd (SetStates [idle, jump, walking] (loaded 2 1 4 8)))
     = [EnterCalled \<lparr>cls = IdleState, ident = 0\<rparr> None, Call_play idle,
        ExitCalled \<lparr>cls = IdleState, ident = 0\<rparr>,
        ExitCalled \<lparr>cls = IdleState, ident = 0\<rparr>,
        EnterCalled \<lparr>cls = WalkState, ident = 1\<rparr> (Some \<lparr>cls = IdleState, ident = 0\<rparr>),
        Call_setEffectiveTimeScale walking 1, Call_setEffectiveWeight walking 1,
        Call_crossFadeFrom walking idle (1/2) True, Call_play walking] \<and>
   replay NoState (trace (snd (SetStates [idle, jump, walking] (loaded 2 1 4 8)))) = None"
  by (simp add: eval_defs)

text \<open>
  C2. On a machine with an active state, \<open>SetState\<close> with the name of that state returns
  the world as it was: no hook is called, the active object stays, and no action is touched.
\<close>

theorem SetState_same_name_noop:
  "currentState w = Some s \<Longrightarrow> SetState (Name s) w = (None, w)"
  by (simp add: SetState_def)

theorem SetState_same_name_noop_witness:
  "currentState (snd (SetState idle (loaded 2 1 4 8))) = Some \<lparr>cls = IdleState, ident = 0\<rparr> \<and>
   SetState (Name \<lparr>cls = IdleState, ident = 0\<rparr>) (snd (SetState idle (loaded 2 1 4 8)))
     = (None, snd (SetState idle (loaded 2 1 4 8)))"
proof -
  have h: "currentState (snd (SetState idle (loaded 2 1 4 8)))
             = Some \<lparr>cls = IdleState, ident = 0\<rparr>"
    by (simp add: eval_defs)
  show ?thesis using h SetState_same_name_noop[OF h] by simp
qed

text \<open>
  C3. On the character machine, the transitions Walking to Run and Run to Walking return
  and set the time of the incoming action to the time of the outgoing action multiplied by
  the ratio of the clip durations (incoming over outgoing), for positive durations.
\<close>

theorem SetState_walk_run_phase:
  assumes "states w = CharacterFSM_states" "currentState w = Some p"
    "(Name p = walking \<and> n = run) \<or> (Name p = run \<and> n = walking)"
    "animations w (Name p) = Some prevAction" "animations w n = Some curAction"
    "0 < duration prevAction" "0 < duration curAction"
  shows "\<exists>w' a. SetState n w = (None, w') \<and> animations w' n = Some a \<and>
           time a = time prevAction * (duration curAction / duration prevAction)"
  using assms(3)
proof
  assume h: "Name p = walking \<and> n = run"
  then have c: "cls p = WalkState" by (auto simp add: Name_def split: state_class.splits)
  show ?thesis using assms(1,2,4,5) h c
    by (simp add: SetState_def hook_defs effect_defs Let_def Name_def CharacterFSM_states_def)
next
  assume h: "Name p = run \<and> n = walking"
  then have c: "cls p = RunState" by (auto simp add: Name_def split: state_class.splits)
  show ?thesis using assms(1,2,4,5) h c
    by (simp add: SetState_def hook_defs effect_defs Let_def Name_def CharacterFSM_states_def)
qed

text \<open>
  An instance: the walking action (clip of 2 seconds) stands at 3/2 when the machine
  changes to run (clip of 1 second), which starts at 3/4.
\<close>

theorem SetState_walk_run_phase_witness:
  "fst (SetStates [idle, walking] (loaded 2 1 4 8)) = [None, None] \<and>
   map_option time (animations (snd (SetState run
       (set_time walking (3/2) (snd (SetStates [idle, walking] (loaded 2 1 4 8)))))) run)
     = Some (3/4)"
proof -
  let ?w = "set_time walking (3/2) (snd (SetStates [idle, walking] (loaded 2 1 4 8)))"
  have 1: "states ?w = CharacterFSM_states" by (simp add: eval_defs)
  have 2: "currentState ?w = Some \<lparr>cls = WalkState, ident = 1\<rparr>" by (simp add: eval_defs)
  have 3: "(Name \<lparr>cls = WalkState, ident = 1\<rparr> = walking \<and> run = run) \<or>
           (Name \<lparr>cls = WalkState, ident = 1\<rparr> = run \<and> run = walking)"
    by (simp add: Name_def)
  have 4: "animations ?w (Name \<lparr>cls = WalkState, ident = 1\<rparr>)
             = Some ((clipAction 2)\<lparr>time := 3/2\<rparr>)"
    by (simp add: eval_defs)
  have 5: "animations ?w run = Some (clipAction 1)" by (simp add: eval_defs)
  have 6: "0 < duration ((clipAction 2)\<lparr>time := 3/2\<rparr>)" "0 < duration (clipAction 1)"
    by (simp_all add: clipAction_def)
  have 7: "fst (SetStates [idle, walking] (loaded 2 1 4 8)) = [None, None]"
    by (simp add: eval_defs)
  from SetState_walk_run_phase[OF 1 2 3 4 5 6] 7 show ?thesis
    by (auto simp add: clipAction_def)
qed

text \<open>
  C4, as the code has it. The duration of the cross-fade depends on the incoming state
  alone: a transition of the character machine that replaces the active state and returns
  makes exactly one cross-fade, from the outgoing action, of 0.5 seconds when it enters Idle
  or Walking and of 0.2 seconds when it enters Run or Dance.
\<close>

theorem crossFade_duration_by_incoming:
  assumes "states w = CharacterFSM_states" "currentState w = Some p" "Name p \<noteq> n"
    "SetState n w = (None, w')"
  shows "crossFades (trace w') = crossFades (trace w) @
           [(n, Name p, if n = idle \<or> n = walking then 1/2 else 1/5)]"
proof -
  from assms(2-4) obtain w1 c where ex: "Exit p w = (None, w1)" and c: "states w n = Some c"
    and en: "Enter \<lparr>cls = c, ident = next_id w1\<rparr> (Some p)
       (w1\<lparr>next_id := Suc (next_id w1),
           currentState := Some \<lparr>cls = c, ident = next_id w1\<rparr>\<rparr>) = (None, w')"
    by (rule SetState_replace)
  have tr: "trace w1 = trace w @ [ExitCalled p]" using Exit_frame(4)[of p w] ex by simp
  have nm: "Name \<lparr>cls = c, ident = next_id w1\<rparr> = n"
    using c assms(1) by (simp add: CharacterFSM_states_Name)
  show ?thesis using Enter_crossFades[OF en] tr nm by (simp add: crossFades_append)
qed

text \<open>An instance: from Idle into Dance the cross-fade takes 0.2 seconds.\<close>

theorem crossFade_duration_by_incoming_witness:
  "states (snd (SetState idle (loaded 2 1 4 8))) = CharacterFSM_states \<and>
   currentState (snd (SetState idle (loaded 2 1 4 8)))
     = Some \<lparr>cls = IdleState, ident = 0\<rparr> \<and>
   Name \<lparr>cls = IdleState, ident = 0\<rparr> \<noteq> dance \<and>
   fst (SetState dance (snd (SetState idle (loaded 2 1 4 8)))) = None \<and>
   crossFades (trace (snd (SetState dance (snd (SetState idle (loaded 2 1 4 8))))))
     = [(dance, idle, 1/5)]"
proof -
  let ?w = "snd (SetState idle (loaded 2 1 4 8))"
  have 1: "states ?w = CharacterFSM_states" by (simp add: eval_defs)
  have 2: "currentState ?w = Some \<lparr>cls = IdleState, ident = 0\<rparr>" by (simp add: eval_defs)
  have 3: "Name \<lparr>cls = IdleState, ident = 0\<rparr> \<noteq> dance" by (simp add: Name_def)
  have 4: "fst (SetState dance ?w) = None" by (simp add: eval_defs)
  then have 5: "SetState dance ?w = (None, snd (SetState dance ?w))"
    by (metis prod.collapse)
  have 6: "crossFades (trace ?w) = []" by (simp add: eval_defs)
  from crossFade_duration_by_incoming[OF 1 2 3 5] 1 2 3 4 6 show ?thesis
    by (simp add: Name_def)
qed

text \<open>
  C4 as stated fails for Run to Walking: after idle, walking, run, the transition back to
  walking cross-fades over 0.5 seconds (\<open>WalkState.Enter\<close>, line 325), not 0.2.
\<close>

theorem run_to_walking_fades_half_second:
  "currentState (snd (SetStates [idle, walking, run] (loaded 2 1 4 8)))
     = Some \<lparr>cls = RunState, ident = 2\<rparr> \<and>
   fst (SetState walking (snd (SetStates [idle, walking, run] (loaded 2 1 4 8)))) = None \<and>
   crossFades (trace (snd (SetState walking
       (snd (SetStates [idle, walking, run] (loaded 2 1 4 8))))))
     = [(walking, idle, 1/2), (run, walking, 1/5), (walking, run, 1/2)]"
  by (simp add: eval_defs)



text \<open>
  C6, what the code does instead. \<open>_Cleanup\<close> hands a new arrow function to
  \<open>removeEventListener\<close>, so no registered listener is ever removed: on a machine in Idle,
  every round of the dance returns and leaves one more listener on the mixer. After \<open>N\<close>
  rounds there are \<open>N\<close> more listeners, and each dispatch calls all of them.
\<close>

theorem dance_listeners_accumulate:
  assumes "dance_ready w" "currentState w = Some s" "Name s = idle"
  shows "\<exists>w'. dance_cycles N w = (None, w') \<and>
           length (listeners w') = length (listeners w) + N"
proof -
  have "\<exists>w' s'. dance_cycles N w = (None, w') \<and> dance_ready w' \<and>
           currentState w' = Some s' \<and> Name s' = idle \<and>
           length (listeners w') = length (listeners w) + N"
    using assms
  proof (induction N arbitrary: w s)
    case 0
    then show ?case by simp
  next
    case (Suc N)
    from dance_cycle_ready[OF Suc.prems] obtain w1 s1 where
      1: "dance_cycles 1 w = (None, w1)" "dance_ready w1"
         "listeners w1 = listeners w @ [FinishedCallback (next_id w)]"
         "currentState w1 = Some s1" "Name s1 = idle"
      by blast
    from Suc.IH[OF 1(2) 1(4) 1(5)] obtain w' s' where
      2: "dance_cycles N w1 = (None, w')" "dance_ready w'" "currentState w' = Some s'"
         "Name s' = idle" "length (listeners w') = length (listeners w1) + N"
      by blast
    have "dance_cycles (Suc N) w = (None, w')"
      using 1(1) 2(1) by (simp only: dance_cycles_Suc split: prod.splits option.splits) simp
    then show ?case using 2(2,3,4,5) 1(3) by simp
  qed
  then show ?thesis by blast
qed

text \<open>
  After two rounds from the freshly loaded machine the mixer holds the callbacks of both
  dance objects (identities 1 and 5), and the callback of the first has run twice.
\<close>

theorem dance_listeners_accumulate_witness:
  "dance_ready (snd (SetState idle (loaded 2 1 4 8))) \<and>
   currentState (snd (SetState idle (loaded 2 1 4 8))) = Some \<lparr>cls = IdleState, ident = 0\<rparr> \<and>
   Name \<lparr>cls = IdleState, ident = 0\<rparr> = idle \<and>
   listeners (snd (SetState idle (loaded 2 1 4 8))) = [] \<and>
   fst (dance_cycles 2 (snd (SetState idle (loaded 2 1 4 8)))) = None \<and>
   listeners (snd (dance_cycles 2 (snd (SetState idle (loaded 2 1 4 8)))))
     = [FinishedCallback 1, FinishedCallback 5] \<and>
   finishedCalls (trace (snd (dance_cycles 2 (snd (SetState idle (loaded 2 1 4 8))))))
     = [1, 1, 5]"
proof -
  let ?w = "snd (SetState idle (loaded 2 1 4 8))"
  have 1: "dance_ready ?w" by (simp add: dance_ready_def callback_below_def eval_defs)
  have 2: "currentState ?w = Some \<lparr>cls = IdleState, ident = 0\<rparr>" by (simp add: eval_defs)
  have 3: "Name \<lparr>cls = IdleState, ident = 0\<rparr> = idle" by (simp add: Name_def)
  have 4: "listeners ?w = []" by (simp add: eval_defs)
  have 5: "listeners (snd (dance_cycles 2 ?w)) = [FinishedCallback 1, FinishedCallback 5]"
    by (simp add: eval_defs cycle_defs numeral_2_eq_2)
  have 6: "finishedCalls (trace (snd (dance_cycles 2 ?w))) = [1, 1, 5]"
    by (simp add: eval_defs cycle_defs numeral_2_eq_2)
  from dance_listeners_accumulate[OF 1 2 3, of 2] 1 2 3 4 5 6 show ?thesis by auto
qed

text \<open>
  C7. While the active state is Dance, the effective acceleration of a tick is the zero
  vector, the tick raises nothing, and the velocity after the tick is the same for every
  combination of keys as with forward, backward and the modifier released.
\<close>

theorem dance_zeroes_acceleration:
  assumes "currentState (stateMachine c) = Some s" "Name s = dance"
  shows "acc (acceleration c) ks (stateMachine c) = \<lparr>vec_x = 0, vec_y = 0, vec_z = 0\<rparr> \<and>
         fst (tick dt (c\<lparr>input := ks\<rparr>)) = None \<and>
         velocity (snd (tick dt (c\<lparr>input := ks\<rparr>))) =
           velocity (snd (tick dt (c\<lparr>input := ks\<lparr>forward := False, backward := False,
                                                  shift := False\<rparr>\<rparr>)))"
  using acc_dance[OF assms] tick_velocity_dance[OF assms] by simp

theorem dance_zeroes_acceleration_witness:
  "currentState (snd (SetStates [idle, dance] (loaded 2 1 4 8)))
     = Some \<lparr>cls = DanceState, ident = 1\<rparr> \<and>
   Name \<lparr>cls = DanceState, ident = 1\<rparr> = dance \<and>
   velocity (snd (tick (1/10)
      (BasicCharacterController
         \<lparr>velocity := \<lparr>vec_x = 0, vec_y = 0, vec_z = 3\<rparr>,
          stateMachine := snd (SetStates [idle, dance] (loaded 2 1 4 8)),
          target := Some \<lparr>quaternion = \<lparr>quat_x = 0, quat_y = 0, quat_z = 0, quat_w = 1\<rparr>,
                          position = \<lparr>vec_x = 0, vec_y = 0, vec_z = 0\<rparr>\<rparr>,
          input := \<lparr>forward = True, backward = False, left = False, right = False,
                    space = False, shift = True\<rparr>\<rparr>)))
     = \<lparr>vec_x = 0, vec_y = 0, vec_z = 3/2\<rparr>"
proof -
  let ?m = "snd (SetStates [idle, dance] (loaded 2 1 4 8))"
  let ?c = "BasicCharacterController
         \<lparr>velocity := \<lparr>vec_x = 0, vec_y = 0, vec_z = 3\<rparr>,
          stateMachine := ?m,
          target := Some \<lparr>quaternion = \<lparr>quat_x = 0, quat_y = 0, quat_z = 0, quat_w = 1\<rparr>,
                          position = \<lparr>vec_x = 0, vec_y = 0, vec_z = 0\<rparr>\<rparr>\<rparr>"
  let ?ks = "\<lparr>forward = True, backward = False, left = False, right = False,
                    space = False, shift = True\<rparr>"
  have 1: "currentState (stateMachine ?c) = Some \<lparr>cls = DanceState, ident = 1\<rparr>"
    by (simp add: eval_defs)
  have 2: "Name \<lparr>cls = DanceState, ident = 1\<rparr> = dance" by (simp add: Name_def)
  have 3: "velocity (snd (tick (1/10) (?c\<lparr>input := ?ks\<lparr>forward := False, backward := False,
                                                  shift := False\<rparr>\<rparr>)))
         = \<lparr>vec_x = 0, vec_y = 0, vec_z = 3/2\<rparr>"
    using 1 by (simp add: tick_defs Name_def Let_def)
  from dance_zeroes_acceleration[OF 1 2, of ?ks "1/10"] 1 2 3 show ?thesis by simp
qed

text \<open>
  C8. For a non-negative elapsed time and the deceleration constants of the controller,
  the frame deceleration of a tick is computed from the velocity at the start of the tick:
  its x and y components are the products of velocity, constant and elapsed time; its z
  component is that product as long as its magnitude does not exceed the magnitude of the
  forward velocity, and otherwise has the magnitude of the forward velocity. A tick that
  reaches the integration adds this vector to the velocity, and the held movement keys add
  their acceleration to the z component after that. With no movement key held, every tick
  therefore moves the forward velocity towards zero and never beyond it.
\<close>

theorem tick_frame_deceleration:
  assumes "0 \<le> dt" "decceleration c = decceleration BasicCharacterController"
  shows "vec_x (frameDecceleration (velocity c) (decceleration c) dt)
           = vec_x (velocity c) * (- (5 / 10000)) * dt \<and>
         vec_y (frameDecceleration (velocity c) (decceleration c) dt)
           = vec_y (velocity c) * (- (1 / 10000)) * dt \<and>
         vec_z (frameDecceleration (velocity c) (decceleration c) dt)
           = (if abs (vec_z (velocity c) * (- 5) * dt) \<le> abs (vec_z (velocity c))
              then vec_z (velocity c) * (- 5) * dt
              else sgn (vec_z (velocity c) * (- 5) * dt) * abs (vec_z (velocity c))) \<and>
         abs (vec_z (frameDecceleration (velocity c) (decceleration c) dt))
           = min (abs (vec_z (velocity c) * (- 5) * dt)) (abs (vec_z (velocity c))) \<and>
         (target c = Some g \<and> Update dt (input c) (stateMachine c) = (None, m) \<longrightarrow>
            vec_x (velocity (snd (tick dt c)))
              = vec_x (velocity c)
                + vec_x (frameDecceleration (velocity c) (decceleration c) dt) \<and>
            vec_y (velocity (snd (tick dt c)))
              = vec_y (velocity c)
                + vec_y (frameDecceleration (velocity c) (decceleration c) dt) \<and>
            vec_z (velocity (snd (tick dt c)))
              = vec_z (velocity c)
                + vec_z (frameDecceleration (velocity c) (decceleration c) dt)
                + (if forward (input c)
                   then vec_z (acc (acceleration c) (input c) m) * dt else 0)
                - (if backward (input c)
                   then vec_z (acc (acceleration c) (input c) m) * dt else 0)) \<and>
         (\<not> forward (input c) \<and> \<not> backward (input c) \<longrightarrow>
            (0 \<le> vec_z (velocity c) \<longrightarrow>
               0 \<le> vec_z (velocity (snd (tick dt c))) \<and>
               vec_z (velocity (snd (tick dt c))) \<le> vec_z (velocity c)) \<and>
            (vec_z (velocity c) \<le> 0 \<longrightarrow>
               vec_z (velocity c) \<le> vec_z (velocity (snd (tick dt c))) \<and>
               vec_z (velocity (snd (tick dt c))) \<le> 0))"
proof -
  let ?v = "velocity c"
  let ?fd = "frameDecceleration ?v (decceleration c) dt"
  let ?p = "vec_z ?v * (- 5) * dt"
  let ?v' = "velocity (snd (tick dt c))"
  have z: "vec_z ?fd = sgn ?p * min (abs ?p) (abs (vec_z ?v))"
    and x: "vec_x ?fd = vec_x ?v * (- (5 / 10000)) * dt"
    and y: "vec_y ?fd = vec_y ?v * (- (1 / 10000)) * dt"
    unfolding assms(2)
    by (simp_all add: frameDecceleration_def BasicCharacterController_def multiplyScalar_def
          Let_def)
  note cl = clamp_real[of "vec_z ?v" ?p, OF product_sign[OF assms(1)]]
  have A1: "vec_z ?fd = (if abs ?p \<le> abs (vec_z ?v) then ?p else sgn ?p * abs (vec_z ?v))"
    unfolding z by (rule cl(2))
  have A2: "abs (vec_z ?fd) = min (abs ?p) (abs (vec_z ?v))"
    unfolding z by (rule cl(1))
  have B: "vec_x ?v' = vec_x ?v + vec_x ?fd \<and> vec_y ?v' = vec_y ?v + vec_y ?fd \<and>
           vec_z ?v' = vec_z ?v + vec_z ?fd
             + (if forward (input c) then vec_z (acc (acceleration c) (input c) m) * dt else 0)
             - (if backward (input c) then vec_z (acc (acceleration c) (input c) m) * dt else 0)"
    if "target c = Some g" "Update dt (input c) (stateMachine c) = (None, m)"
    unfolding tick_ok(1)[OF that] by (simp add: Let_def add_def)
  have C: "(0 \<le> vec_z ?v \<longrightarrow> 0 \<le> vec_z ?v' \<and> vec_z ?v' \<le> vec_z ?v) \<and>
           (vec_z ?v \<le> 0 \<longrightarrow> vec_z ?v \<le> vec_z ?v' \<and> vec_z ?v' \<le> 0)"
    if k: "\<not> forward (input c)" "\<not> backward (input c)"
  proof (cases "target c")
    case None
    then show ?thesis by (simp add: tick_def)
  next
    case (Some g')
    obtain r m' where u: "Update dt (input c) (stateMachine c) = (r, m')"
      by (cases "Update dt (input c) (stateMachine c)")
    show ?thesis
    proof (cases r)
      case (Some e)
      then show ?thesis using \<open>target c = Some g'\<close> u by (simp add: tick_def)
    next
      case None
      have "vec_z ?v' = vec_z ?v + vec_z ?fd"
        using tick_ok(1)[OF \<open>target c = Some g'\<close> u[unfolded None]] k
        by (simp add: Let_def add_def)
      then have e: "vec_z ?v' = vec_z ?v + sgn ?p * min (abs ?p) (abs (vec_z ?v))"
        by (simp only: z)
      show ?thesis unfolding e using cl(3,4) by blast
    qed
  qed
  from x y A1 A2 B C show ?thesis by blast
qed

text \<open>
  An instance: idle, no key held, velocity (2, 0, 3), one second. The z product would be
  -15; the frame deceleration is clamped to -3 and the tick leaves the velocity at
  (2 - 1/1000, 0, 0).
\<close>

theorem tick_frame_deceleration_witness:
  "(0::real) \<le> 1 \<and>
   target (BasicCharacterController
      \<lparr>velocity := \<lparr>vec_x = 2, vec_y = 0, vec_z = 3\<rparr>,
       stateMachine := snd (SetState idle (loaded 2 1 4 8)),
       target := Some \<lparr>quaternion = \<lparr>quat_x = 0, quat_y = 0, quat_z = 0, quat_w = 1\<rparr>,
                       position = \<lparr>vec_x = 0, vec_y = 0, vec_z = 0\<rparr>\<rparr>\<rparr>)
     = Some \<lparr>quaternion = \<lparr>quat_x = 0, quat_y = 0, quat_z = 0, quat_w = 1\<rparr>,
             position = \<lparr>vec_x = 0, vec_y = 0, vec_z = 0\<rparr>\<rparr> \<and>
   Update 1 (input BasicCharacterController) (snd (SetState idle (loaded 2 1 4 8)))
     = (None, snd (SetState idle (loaded 2 1 4 8))) \<and>
   velocity (snd (tick 1 (BasicCharacterController
      \<lparr>velocity := \<lparr>vec_x = 2, vec_y = 0, vec_z = 3\<rparr>,
       stateMachine := snd (SetState idle (loaded 2 1 4 8)),
       target := Some \<lparr>quaternion = \<lparr>quat_x = 0, quat_y = 0, quat_z = 0, quat_w = 1\<rparr>,
                       position = \<lparr>vec_x = 0, vec_y = 0, vec_z = 0\<rparr>\<rparr>\<rparr>)))
     = \<lparr>vec_x = 2 - 1 / 1000, vec_y = 0, vec_z = 0\<rparr>"
proof -
  let ?m = "snd (SetState idle (loaded 2 1 4 8))"
  let ?g = "\<lparr>quaternion = \<lparr>quat_x = 0, quat_y = 0, quat_z = 0, quat_w = 1\<rparr>,
             position = \<lparr>vec_x = 0, vec_y = 0, vec_z = 0\<rparr>\<rparr>"
  let ?c = "BasicCharacterController
      \<lparr>velocity := \<lparr>vec_x = 2, vec_y = 0, vec_z = 3\<rparr>, stateMachine := ?m,
       target := Some ?g\<rparr>"
  have 1: "(0::real) \<le> 1" by simp
  have 2: "decceleration ?c = decceleration BasicCharacterController" by simp
  have 3: "target ?c = Some ?g" by simp
  have cs: "currentState ?m = Some \<lparr>cls = IdleState, ident = 0\<rparr>" by (simp add: eval_defs)
  have ks: "\<not> forward (input ?c)" "\<not> backward (input ?c)" "\<not> space (input ?c)"
    by (simp_all add: BasicCharacterController_def)
  have 4: "Update 1 (input ?c) (stateMachine ?c) = (None, ?m)"
    using cs ks by (simp add: Update_def IdleState_Update_def)
  have 5: "velocity ?c = \<lparr>vec_x = 2, vec_y = 0, vec_z = 3\<rparr>" by simp
  have 6: "input ?c = input BasicCharacterController" by simp
  from tick_frame_deceleration[OF 1 2, of ?g ?m] 3 4 5 ks(1,2)
  have "vec_x (velocity (snd (tick 1 ?c))) = 2 - 1 / 1000 \<and>
        vec_y (velocity (snd (tick 1 ?c))) = 0 \<and> vec_z (velocity (snd (tick 1 ?c))) = 0"
    by simp
  then have "velocity (snd (tick 1 ?c)) = \<lparr>vec_x = 2 - 1 / 1000, vec_y = 0, vec_z = 0\<rparr>"
    by (cases "velocity (snd (tick 1 ?c))") simp
  with 1 3 4 6 show ?thesis by simp
qed

text \<open>
  C9. \<open>SetState\<close> with a name that has no registered constructor, and that is not the name
  of the active state, raises an error; the machine keeps its active state. On the character
  machine this is the case of the reserved name \<open>jump\<close>.
\<close>

theorem SetState_unregistered_raises:
  assumes "states w n = None" and "map_option Name (currentState w) \<noteq> Some n"
  shows "(\<exists>e. fst (SetState n w) = Some e) \<and>
         currentState (snd (SetState n w)) = currentState w"
proof -
  obtain r w1 where ae: "after_exit w = (r, w1)" by (cases "after_exit w")
  have "states w1 = states w" "currentState w1 = currentState w"
    using after_exit_frame(1,4)[of w] ae by simp_all
  then show ?thesis using assms ae by (cases r) (simp_all add: SetState_unfold)
qed

theorem SetState_unregistered_raises_witness:
  "states (snd (SetState idle (loaded 2 1 4 8))) jump = None \<and>
   map_option Name (currentState (snd (SetState idle (loaded 2 1 4 8)))) \<noteq> Some jump \<and>
   fst (SetState jump (snd (SetState idle (loaded 2 1 4 8)))) = Some TypeError \<and>
   currentState (snd (SetState jump (snd (SetState idle (loaded 2 1 4 8)))))
     = Some \<lparr>cls = IdleState, ident = 0\<rparr>"
proof -
  let ?w = "snd (SetState idle (loaded 2 1 4 8))"
  have 1: "states ?w jump = None" by (simp add: eval_defs)
  have 2: "map_option Name (currentState ?w) \<noteq> Some jump" by (simp add: eval_defs)
  have 3: "currentState ?w = Some \<lparr>cls = IdleState, ident = 0\<rparr>" by (simp add: eval_defs)
  from SetState_unregistered_raises[OF 1 2] 1 2 3 show ?thesis
    by (cases "fst (SetState jump ?w)") (auto intro: error.exhaust)
qed

text \<open>
  C10. In a tick that reaches the integration, each held turn key rotates the orientation
  about the vertical axis by an angle of \<open>4 * pi * dt * 0.25\<close> (left) or its negative
  (right), whatever the modifier key and the active state are; the forward velocity gains
  \<open>25 * dt\<close> per held movement key, doubled by the modifier and zeroed while the active
  state is Dance.
\<close>

theorem yaw_uses_base_acceleration:
  assumes "target c = Some controlObject"
    "Update dt (input c) (stateMachine c) = (None, m)"
    "acceleration c = acceleration BasicCharacterController"
  shows "map_option quaternion (target (snd (tick dt c))) =
           Some (let R1 = (if left (input c)
                           then multiply (quaternion controlObject)
                                  (setFromAxisAngle \<lparr>vec_x = 0, vec_y = 1, vec_z = 0\<rparr>
                                     (4 * pi * dt * (1 / 4)))
                           else quaternion controlObject)
                 in if right (input c)
                    then multiply R1
                           (setFromAxisAngle \<lparr>vec_x = 0, vec_y = 1, vec_z = 0\<rparr>
                              (- (4 * pi * dt * (1 / 4))))
                    else R1) \<and>
         vec_z (velocity (snd (tick dt c))) =
           vec_z (velocity c) + vec_z (frameDecceleration (velocity c) (decceleration c) dt)
           + (if forward (input c)
              then 25 * (if shift (input c) then 2 else 1)
                      * (if map_option Name (currentState m) = Some dance then 0 else 1) * dt
              else 0)
           - (if backward (input c)
              then 25 * (if shift (input c) then 2 else 1)
                      * (if map_option Name (currentState m) = Some dance then 0 else 1) * dt
              else 0)"
proof -
  have ay: "vec_y (acceleration c) = 1 / 4" and az: "vec_z (acceleration c) = 25"
    using assms(3) by (simp_all add: BasicCharacterController_def)
  have neg: "4 * (- pi) * dt * (1 / 4) = - (4 * pi * dt * (1 / 4))" by simp
  have q: "map_option quaternion (target (snd (tick dt c))) =
           Some (let R1 = (if left (input c)
                           then multiply (quaternion controlObject)
                                  (setFromAxisAngle \<lparr>vec_x = 0, vec_y = 1, vec_z = 0\<rparr>
                                     (4 * pi * dt * (1 / 4)))
                           else quaternion controlObject)
                 in if right (input c)
                    then multiply R1
                           (setFromAxisAngle \<lparr>vec_x = 0, vec_y = 1, vec_z = 0\<rparr>
                              (- (4 * pi * dt * (1 / 4))))
                    else R1)"
    using tick_ok(2)[OF assms(1,2)] unfolding ay neg .
  have v: "vec_z (velocity (snd (tick dt c))) =
           vec_z (velocity c) + vec_z (frameDecceleration (velocity c) (decceleration c) dt)
           + (if forward (input c)
              then 25 * (if shift (input c) then 2 else 1)
                      * (if map_option Name (currentState m) = Some dance then 0 else 1) * dt
              else 0)
           - (if backward (input c)
              then 25 * (if shift (input c) then 2 else 1)
                      * (if map_option Name (currentState m) = Some dance then 0 else 1) * dt
              else 0)"
    unfolding tick_ok(1)[OF assms(1,2)] by (simp add: Let_def acc_z az add_def)
  from q v show ?thesis by blast
qed

text \<open>
  An instance: while dancing, with forward, left and the modifier held for one second, the
  character turns by \<open>pi\<close> and its forward velocity stays 0.
\<close>

theorem yaw_uses_base_acceleration_witness:
  "target (BasicCharacterController
         \<lparr>stateMachine := snd (SetStates [idle, dance] (loaded 2 1 4 8)),
          target := Some \<lparr>quaternion = \<lparr>quat_x = 0, quat_y = 0, quat_z = 0, quat_w = 1\<rparr>,
                          position = \<lparr>vec_x = 0, vec_y = 0, vec_z = 0\<rparr>\<rparr>,
          input := \<lparr>forward = True, backward = False, left = True, right = False,
                    space = False, shift = True\<rparr>\<rparr>)
     = Some \<lparr>quaternion = \<lparr>quat_x = 0, quat_y = 0, quat_z = 0, quat_w = 1\<rparr>,
             position = \<lparr>vec_x = 0, vec_y = 0, vec_z = 0\<rparr>\<rparr> \<and>
   Update 1
      \<lparr>forward = True, backward = False, left = True, right = False, space = False, shift = True\<rparr>
      (snd (SetStates [idle, dance] (loaded 2 1 4 8)))
     = (None, snd (SetStates [idle, dance] (loaded 2 1 4 8))) \<and>
   map_option quaternion (target (snd (tick 1
      (BasicCharacterController
         \<lparr>stateMachine := snd (SetStates [idle, dance] (loaded 2 1 4 8)),
          target := Some \<lparr>quaternion = \<lparr>quat_x = 0, quat_y = 0, quat_z = 0, quat_w = 1\<rparr>,
                          position = \<lparr>vec_x = 0, vec_y = 0, vec_z = 0\<rparr>\<rparr>,
          input := \<lparr>forward = True, backward = False, left = True, right = False,
                    space = False, shift = True\<rparr>\<rparr>))))
     = Some \<lparr>quat_x = 0, quat_y = 1, quat_z = 0, quat_w = 0\<rparr> \<and>
   vec_z (velocity (snd (tick 1
      (BasicCharacterController
         \<lparr>stateMachine := snd (SetStates [idle, dance] (loaded 2 1 4 8)),
          target := Some \<lparr>quaternion = \<lparr>quat_x = 0, quat_y = 0, quat_z = 0, quat_w = 1\<rparr>,
                          position = \<lparr>vec_x = 0, vec_y = 0, vec_z = 0\<rparr>\<rparr>,
          input := \<lparr>forward = True, backward = False, left = True, right = False,
                    space = False, shift = True\<rparr>\<rparr>)))) = 0"
proof -
  let ?m = "snd (SetStates [idle, dance] (loaded 2 1 4 8))"
  let ?g = "\<lparr>quaternion = \<lparr>quat_x = 0, quat_y = 0, quat_z = 0, quat_w = 1\<rparr>,
             position = \<lparr>vec_x = 0, vec_y = 0, vec_z = 0\<rparr>\<rparr>"
  let ?ks = "\<lparr>forward = True, backward = False, left = True, right = False,
                    space = False, shift = True\<rparr>"
  let ?c = "BasicCharacterController\<lparr>stateMachine := ?m, target := Some ?g, input := ?ks\<rparr>"
  have 1: "target ?c = Some ?g" by simp
  have cs: "currentState ?m = Some \<lparr>cls = DanceState, ident = 1\<rparr>" by (simp add: eval_defs)
  have 2: "Update 1 (input ?c) (stateMachine ?c) = (None, ?m)"
    using cs by (simp add: Update_def)
  have 3: "acceleration ?c = acceleration BasicCharacterController" by simp
  have 4: "frameDecceleration (velocity ?c) (decceleration ?c) 1
             = \<lparr>vec_x = 0, vec_y = 0, vec_z = 0\<rparr>"
    by (simp add: tick_defs Let_def)
  have 5: "map_option Name (currentState ?m) = Some dance" using cs by (simp add: Name_def)
  have 6: "velocity ?c = \<lparr>vec_x = 0, vec_y = 0, vec_z = 0\<rparr>"
    by (simp add: BasicCharacterController_def)
  from yaw_uses_base_acceleration[OF 1 2 3] 2 4 5 6 show ?thesis
    by (simp add: setFromAxisAngle_def multiply_def Let_def)
qed

end
